theory Spec2Isabelle
  imports Main "HOL-Library.Word" "HOL-Library.Sublist"
begin

unbundle bit_operations_syntax

section \<open>Bytes and errors\<close>

type_synonym byte = "8 word"

text \<open>
  A Go \<open>[]byte\<close> and a Go \<open>string\<close> are both byte sequences; the conversions
  \<open>string(val)\<close> and \<open>[]byte(v)\<close> are the identity on them. A nil slice is the empty
  list.
\<close>

type_synonym bytes = "byte list"

datatype error =
    ErrSyntax                \<comment> \<open>strconv.ErrSyntax\<close>
  | ErrRange                 \<comment> \<open>strconv.ErrRange\<close>
  | ErrBase                  \<comment> \<open>strconv: invalid base\<close>
  | ErrBitSize               \<comment> \<open>strconv: invalid bit size\<close>
  | ErrFloat                 \<comment> \<open>strconv.ParseFloat failed\<close>
  | ErrInvalidType           \<comment> \<open>"invalid type specified for MakeValue"\<close>
  | ErrWrite                 \<comment> \<open>an error reported by a writer\<close>
  | ErrOther string          \<comment> \<open>an error of a collaborator\<close>
  | PanicNilDeref            \<comment> \<open>runtime panic: nil pointer dereference\<close>
  | PanicIndex               \<comment> \<open>runtime panic: index or slice bounds out of range\<close>
  | BadPointer               \<comment> \<open>a pointer to no object of its type (excluded by Go's types)\<close>

section \<open>mysql/types: Value\<close>

text \<open>
  Modelled from the spec: the declaration of \<open>MySqlType\<close> and the classifiers
  \<open>IsSigned\<close>, \<open>IsUnsigned\<close>, \<open>IsFloat\<close> and \<open>IsQuoted\<close> are not part of the
  sources at hand. The type codes are the ones the specification's data model lists; the
  classes are the ones its constructor rules name. \<open>Bit\<close> is not a quoted type: both
  \<open>NewValue\<close> and \<open>EncodeSQL\<close> test it next to \<open>IsQuoted\<close>.
\<close>

datatype MySqlType =
    Null
  | Int8 | Int16 | Int24 | Int32 | Int64
  | Uint8 | Uint16 | Uint24 | Uint32 | Uint64
  | Float32 | Float64 | Decimal
  | VarChar | VarBinary | Text | Blob | Bit
  | Date | Datetime | Timestamp | Time | Year
  | Enum | Set | Json
  | Expression | TypeTuple

fun IsSigned :: "MySqlType \<Rightarrow> bool" where
  "IsSigned Int8 = True"
| "IsSigned Int16 = True"
| "IsSigned Int24 = True"
| "IsSigned Int32 = True"
| "IsSigned Int64 = True"
| "IsSigned _ = False"

fun IsUnsigned :: "MySqlType \<Rightarrow> bool" where
  "IsUnsigned Uint8 = True"
| "IsUnsigned Uint16 = True"
| "IsUnsigned Uint24 = True"
| "IsUnsigned Uint32 = True"
| "IsUnsigned Uint64 = True"
| "IsUnsigned _ = False"

fun IsFloat :: "MySqlType \<Rightarrow> bool" where
  "IsFloat Float32 = True"
| "IsFloat Float64 = True"
| "IsFloat _ = False"

fun IsQuoted :: "MySqlType \<Rightarrow> bool" where
  "IsQuoted VarChar = True"
| "IsQuoted VarBinary = True"
| "IsQuoted Text = True"
| "IsQuoted Blob = True"
| "IsQuoted Enum = True"
| "IsQuoted Set = True"
| "IsQuoted Date = True"
| "IsQuoted Time = True"
| "IsQuoted Datetime = True"
| "IsQuoted Timestamp = True"
| "IsQuoted Json = True"
| "IsQuoted _ = False"

record Value =
  ValueType :: MySqlType
  Value :: bytes

text \<open>\<open>NULL = Value{}\<close>: the zero value, type code \<open>Null\<close> and a nil byte slice.\<close>

definition NULL :: Value where
  "NULL = \<lparr>ValueType = Null, Value = []\<rparr>"

definition DontEscape :: byte where
  "DontEscape = 255"

definition nullstr :: bytes where
  "nullstr = map of_char ''null''"

definition MakeTrusted :: "MySqlType \<Rightarrow> bytes \<Rightarrow> Value" where
  "MakeTrusted typ val =
     (if typ = Null then NULL else \<lparr>ValueType = typ, Value = val\<rparr>)"

definition NewVarChar :: "bytes \<Rightarrow> Value" where
  "NewVarChar v = MakeTrusted VarChar v"

definition NewVarBinary :: "bytes \<Rightarrow> Value" where
  "NewVarBinary v = MakeTrusted VarBinary v"

subsection \<open>Value.Equals\<close>

text \<open>
  The argument of \<open>Equals\<close> is an \<open>interface{}\<close>: a value together with its dynamic
  type. A pointer is \<open>None\<close> when nil.
\<close>

datatype iface =
    INil                          \<comment> \<open>the nil interface\<close>
  | IPtrValue "Value option"      \<comment> \<open>dynamic type \<open>*Value\<close>\<close>
  | IValue Value                  \<comment> \<open>dynamic type \<open>Value\<close>\<close>
  | IBytes bytes                  \<comment> \<open>dynamic type \<open>[]byte\<close>\<close>
  | IString bytes                 \<comment> \<open>dynamic type \<open>string\<close>\<close>
  | IInt64 "64 word"              \<comment> \<open>dynamic type \<open>int64\<close>\<close>
  | IUint64 "64 word"             \<comment> \<open>dynamic type \<open>uint64\<close>\<close>

text \<open>
  \<open>value.(*Value)\<close> succeeds exactly on the dynamic type \<open>*Value\<close>, also for a nil
  pointer of that type; the comparison then reads through both pointers.
\<close>

fun Equals :: "Value option \<Rightarrow> iface \<Rightarrow> error + bool" where
  "Equals v (IPtrValue vv) =
     (case v of
        None \<Rightarrow> Inl PanicNilDeref
      | Some a \<Rightarrow>
          (case vv of
             None \<Rightarrow> Inl PanicNilDeref
           | Some b \<Rightarrow> Inr (ValueType a = ValueType b \<and> Value a = Value b)))"
| "Equals v _ = Inr False"

subsection \<open>SQL encoding\<close>

text \<open>
  A \<open>BinWriter\<close> is any object with a \<open>Write\<close> method: a state and a function that
  consumes bytes and may report an error.
\<close>

type_synonym 'w BinWriter = "'w \<Rightarrow> bytes \<Rightarrow> 'w \<times> error option"

text \<open>The in-memory buffer the package expects (\<open>bytes.Buffer\<close>): it appends, never fails.\<close>

definition buffer_Write :: "bytes BinWriter" where
  "buffer_Write buf p = (buf @ p, None)"

definition encodeRef :: "(byte \<times> byte) list" where
  "encodeRef =
     [(0x00, of_char CHR ''0''),
      (0x27, 0x27),
      (0x22, 0x22),
      (0x08, of_char CHR ''b''),
      (0x0A, of_char CHR ''n''),
      (0x0D, of_char CHR ''r''),
      (0x09, of_char CHR ''t''),
      (26, of_char CHR ''Z''),
      (0x5C, 0x5C)]"

text \<open>
  \<open>init\<close>: both arrays have 256 entries, zero at first. The first loop fills them with
  \<open>DontEscape\<close>, the second one enters \<open>encodeRef\<close> and its inverse.
\<close>

definition init_fill :: "nat \<Rightarrow> bytes \<times> bytes \<Rightarrow> bytes \<times> bytes" where
  "init_fill i m = ((fst m)[i := DontEscape], (snd m)[i := DontEscape])"

definition init_enter :: "nat \<Rightarrow> bytes \<times> bytes \<Rightarrow> bytes \<times> bytes" where
  "init_enter i m =
     (case map_of encodeRef (of_nat i :: byte) of
        Some to \<Rightarrow> ((fst m)[unat (of_nat i :: byte) := to], (snd m)[unat to := of_nat i])
      | None \<Rightarrow> m)"

definition init :: "bytes \<times> bytes" where
  "init = fold init_enter [0..<256]
            (fold init_fill [0..<256] (replicate 256 0, replicate 256 0))"

definition SQLEncodeMap :: bytes where
  "SQLEncodeMap = fst init"

definition SQLDecodeMap :: bytes where
  "SQLDecodeMap = snd init"

text \<open>The body of the loop of \<open>encodeBytesSQL\<close>: one byte written to \<open>buf\<close>.\<close>

definition encode_step :: "bytes \<Rightarrow> byte \<Rightarrow> bytes" where
  "encode_step buf ch =
     (let encodedChar = SQLEncodeMap ! unat ch in
      if encodedChar = DontEscape then buf @ [ch]
      else buf @ [0x5C] @ [encodedChar])"

definition encodeBytesSQL :: "bytes \<Rightarrow> 'w BinWriter \<Rightarrow> 'w \<Rightarrow> 'w \<times> error option" where
  "encodeBytesSQL val Write b =
     (let buf = [0x27];
          buf = foldl encode_step buf val;
          buf = buf @ [0x27]
      in Write b buf)"

text \<open>\<open>fmt.Fprintf(b, "%08b", ch)\<close>: eight binary digits, the high bit first.\<close>

definition fmt_08b :: "byte \<Rightarrow> bytes" where
  "fmt_08b ch = map (\<lambda>i. if bit ch i then of_char CHR ''1'' else of_char CHR ''0'') (rev [0..<8])"

fun encodeBits_loop :: "bytes \<Rightarrow> 'w BinWriter \<Rightarrow> 'w \<Rightarrow> 'w \<times> error option" where
  "encodeBits_loop [] Write b = (b, None)"
| "encodeBits_loop (ch # val) Write b =
     (case Write b (fmt_08b ch) of
        (b', Some e) \<Rightarrow> (b', Some e)
      | (b', None) \<Rightarrow> encodeBits_loop val Write b')"

definition encodeBytesSQLBits :: "bytes \<Rightarrow> 'w BinWriter \<Rightarrow> 'w \<Rightarrow> 'w \<times> error option" where
  "encodeBytesSQLBits val Write b =
     (case Write b (map of_char ''b'' @ [0x27]) of
        (b1, Some e) \<Rightarrow> (b1, Some e)
      | (b1, None) \<Rightarrow>
          (case encodeBits_loop val Write b1 of
             (b2, Some e) \<Rightarrow> (b2, Some e)
           | (b2, None) \<Rightarrow> Write b2 [0x27]))"

definition EncodeSQL :: "Value \<Rightarrow> 'w BinWriter \<Rightarrow> 'w \<Rightarrow> 'w \<times> error option" where
  "EncodeSQL v Write b =
     (if ValueType v = Null then Write b nullstr
      else if IsQuoted (ValueType v) then encodeBytesSQL (Value v) Write b
      else if ValueType v = Bit then encodeBytesSQLBits (Value v) Write b
      else Write b (Value v))"

text \<open>
  The escape table in the words of the specification: nine bytes are written as a
  backslash and their mapped character, every other byte as itself.
\<close>

definition escape_table :: "byte \<Rightarrow> bytes" where
  "escape_table b =
     (if b = 0x00 then [0x5C, of_char CHR ''0'']
      else if b = 0x08 then [0x5C, of_char CHR ''b'']
      else if b = 0x09 then [0x5C, of_char CHR ''t'']
      else if b = 0x0A then [0x5C, of_char CHR ''n'']
      else if b = 0x0D then [0x5C, of_char CHR ''r'']
      else if b = 0x1A then [0x5C, of_char CHR ''Z'']
      else if b = 0x27 then [0x5C, 0x27]
      else if b = 0x22 then [0x5C, 0x22]
      else if b = 0x5C then [0x5C, 0x5C]
      else [b])"

definition obrien :: bytes where
  "obrien = map of_char ''O'' @ [0x27] @ map of_char ''Brien'' @ [0x0A]"

definition obrien_sql :: bytes where
  "obrien_sql =
     [0x27] @ map of_char ''O'' @ [0x5C, 0x27] @ map of_char ''Brien'' @ [0x5C]
       @ map of_char ''n'' @ [0x27]"

section \<open>strconv: the integer parsers and printers the package calls\<close>

text \<open>
  \<open>strconv\<close> is Go's standard library. \<open>ParseUint\<close>, \<open>ParseInt\<close> and
  \<open>underscoreOK\<close> follow its source (Go 1.13 and later, where base 0 knows the prefixes
  \<open>0b\<close>, \<open>0o\<close>, \<open>0x\<close>, a leading \<open>0\<close> for octal, and underscores). Both parsers return
  a value together with an error, and \<open>ParseInt\<close> looks at the kind of error
  \<open>ParseUint\<close> reports.
\<close>

definition maxUint64 :: "64 word" where
  "maxUint64 = 0xFFFFFFFFFFFFFFFF"

definition lower :: "byte \<Rightarrow> byte" where
  "lower c = c OR 0x20"

datatype saw = SawStart | SawDigit | SawUnderscore | SawOther

fun underscoreOK_loop :: "bool \<Rightarrow> saw \<Rightarrow> bytes \<Rightarrow> bool" where
  "underscoreOK_loop hex sw [] = (sw \<noteq> SawUnderscore)"
| "underscoreOK_loop hex sw (c # s) =
     (if (0x30 \<le> c \<and> c \<le> 0x39) \<or> (hex \<and> 0x61 \<le> lower c \<and> lower c \<le> 0x66)
      then underscoreOK_loop hex SawDigit s
      else if c = 0x5F
      then (if sw \<noteq> SawDigit then False else underscoreOK_loop hex SawUnderscore s)
      else if sw = SawUnderscore then False
      else underscoreOK_loop hex SawOther s)"

definition underscoreOK :: "bytes \<Rightarrow> bool" where
  "underscoreOK s0 =
     (let s = (if length s0 \<ge> 1 \<and> (s0 ! 0 = 0x2D \<or> s0 ! 0 = 0x2B) then drop 1 s0 else s0)
      in if length s \<ge> 2 \<and> s ! 0 = 0x30 \<and>
            (lower (s ! 1) = 0x62 \<or> lower (s ! 1) = 0x6F \<or> lower (s ! 1) = 0x78)
         then underscoreOK_loop (lower (s ! 1) = 0x78) SawDigit (drop 2 s)
         else underscoreOK_loop False SawStart s)"

text \<open>The digit value of a character, if it is a digit or a letter.\<close>

definition digit_val :: "byte \<Rightarrow> byte option" where
  "digit_val c =
     (if 0x30 \<le> c \<and> c \<le> 0x39 then Some (c - 0x30)
      else if 0x61 \<le> lower c \<and> lower c \<le> 0x7A then Some (lower c - 0x61 + 10)
      else None)"

text \<open>
  The loop of \<open>ParseUint\<close>. \<open>Inl\<close> is an early return with the value and the error,
  \<open>Inr\<close> the number read and whether an underscore was seen.
\<close>

fun ParseUint_loop ::
  "bool \<Rightarrow> int \<Rightarrow> 64 word \<Rightarrow> 64 word \<Rightarrow> bytes \<Rightarrow> bool \<Rightarrow> 64 word
     \<Rightarrow> (64 word \<times> error) + (64 word \<times> bool)" where
  "ParseUint_loop base0 base cutoff maxVal [] underscores n = Inr (n, underscores)"
| "ParseUint_loop base0 base cutoff maxVal (c # s) underscores n =
     (if c = 0x5F \<and> base0 then ParseUint_loop base0 base cutoff maxVal s True n
      else
        (case digit_val c of
           None \<Rightarrow> Inl (0, ErrSyntax)
         | Some d \<Rightarrow>
             if d \<ge> (word_of_int base :: byte) then Inl (0, ErrSyntax)
             else if n \<ge> cutoff then Inl (maxVal, ErrRange)
             else
               (let n' = n * word_of_int base;
                    n1 = n' + ucast d
                in if n1 < n' \<or> n1 > maxVal then Inl (maxVal, ErrRange)
                   else ParseUint_loop base0 base cutoff maxVal s underscores n1)))"

text \<open>The base and the digits left after the prefix, when the base argument is 0.\<close>

definition base_prefix :: "bytes \<Rightarrow> int \<times> bytes" where
  "base_prefix s =
     (if s ! 0 = 0x30
      then (if length s \<ge> 3 \<and> lower (s ! 1) = 0x62 then (2, drop 2 s)
            else if length s \<ge> 3 \<and> lower (s ! 1) = 0x6F then (8, drop 2 s)
            else if length s \<ge> 3 \<and> lower (s ! 1) = 0x78 then (16, drop 2 s)
            else (8, drop 1 s))
      else (10, s))"

definition ParseUint :: "bytes \<Rightarrow> int \<Rightarrow> int \<Rightarrow> 64 word \<times> error option" where
  "ParseUint s0 base bitSize =
     (if s0 = [] then (0, Some ErrSyntax)
      else if \<not> (2 \<le> base \<and> base \<le> 36) \<and> base \<noteq> 0 then (0, Some ErrBase)
      else
        (let base0 = (base = 0);
             (base, s) = (if base0 then base_prefix s0 else (base, s0))
         in if bitSize \<noteq> 0 \<and> (bitSize < 0 \<or> bitSize > 64) then (0, Some ErrBitSize)
            else
              (let bitSize = (if bitSize = 0 then 64 else bitSize);
                   cutoff = maxUint64 div word_of_int base + 1;
                   maxVal = push_bit (nat bitSize) 1 - 1
               in case ParseUint_loop base0 base cutoff maxVal s False 0 of
                    Inl (v, e) \<Rightarrow> (v, Some e)
                  | Inr (n, underscores) \<Rightarrow>
                      if underscores \<and> \<not> underscoreOK s0 then (0, Some ErrSyntax)
                      else (n, None))))"

definition ParseInt :: "bytes \<Rightarrow> int \<Rightarrow> int \<Rightarrow> 64 word \<times> error option" where
  "ParseInt s0 base bitSize =
     (if s0 = [] then (0, Some ErrSyntax)
      else
        (let neg = (s0 ! 0 = 0x2D);
             s = (if s0 ! 0 = 0x2B \<or> s0 ! 0 = 0x2D then drop 1 s0 else s0);
             (un, err) = ParseUint s base bitSize
         in if err \<noteq> None \<and> err \<noteq> Some ErrRange then (0, err)
            else
              (let bitSize = (if bitSize = 0 then 64 else bitSize);
                   cutoff = (push_bit (nat (bitSize - 1)) 1 :: 64 word)
               in if \<not> neg \<and> un \<ge> cutoff then (cutoff - 1, Some ErrRange)
                  else if neg \<and> un > cutoff then (- cutoff, Some ErrRange)
                  else (if neg then - un else un, None))))"

text \<open>
  Decimal digits of a \<open>uint64\<close>, the most significant first: what \<open>formatBits\<close>
  leaves in its buffer for base 10.
\<close>

function dec_digits :: "64 word \<Rightarrow> bytes" where
  "dec_digits u =
     (if u < 10 then [0x30 + ucast u]
      else dec_digits (u div 10) @ [0x30 + ucast (u mod 10)])"
  by pat_completeness auto
termination
proof (relation "measure unat")
  show "wf (measure unat)" by simp
next
  fix u :: "64 word"
  assume "\<not> u < 10"
  then have "10 \<le> unat u" by (simp add: word_less_nat_alt)
  then have "unat u div 10 < unat u" by simp
  then show "(u div 10, u) \<in> measure unat"
    by (simp add: unat_div)
qed

declare dec_digits.simps [simp del]

text \<open>
  \<open>strconv.AppendUint(dst, u, 10)\<close> and \<open>strconv.AppendInt(dst, i, 10)\<close>; a negative
  \<open>i\<close> is printed as a minus sign and the digits of \<open>-uint64(i)\<close>.
\<close>

definition AppendUint :: "bytes \<Rightarrow> 64 word \<Rightarrow> bytes" where
  "AppendUint dst u = dst @ dec_digits u"

definition AppendInt :: "bytes \<Rightarrow> 64 word \<Rightarrow> bytes" where
  "AppendInt dst i =
     (if sint i < 0 then dst @ [0x2D] @ dec_digits (- i)
      else dst @ dec_digits i)"

section \<open>mysql/types: the constructors\<close>

text \<open>
  \<open>NewValue\<close> returns a value and an error. \<open>strconv.ParseFloat\<close> is floating point and
  stays a parameter: \<open>parseFloat\<close> gives the error it reports, if any.
\<close>

definition NewValue ::
  "(bytes \<Rightarrow> error option) \<Rightarrow> MySqlType \<Rightarrow> bytes \<Rightarrow> Value \<times> error option" where
  "NewValue parseFloat typ val =
     (if IsSigned typ then
        (case snd (ParseInt val 0 64) of
           Some err \<Rightarrow> (NULL, Some err)
         | None \<Rightarrow> (MakeTrusted typ val, None))
      else if IsUnsigned typ then
        (case snd (ParseUint val 0 64) of
           Some err \<Rightarrow> (NULL, Some err)
         | None \<Rightarrow> (MakeTrusted typ val, None))
      else if IsFloat typ \<or> typ = Decimal then
        (case parseFloat val of
           Some err \<Rightarrow> (NULL, Some err)
         | None \<Rightarrow> (MakeTrusted typ val, None))
      else if IsQuoted typ \<or> typ = Bit \<or> typ = Null then (MakeTrusted typ val, None)
      else (NULL, Some ErrInvalidType))"

text \<open>Two stand-ins for \<open>strconv.ParseFloat\<close>: one accepts every input, one rejects all.\<close>

definition accept_float :: "bytes \<Rightarrow> error option" where
  "accept_float val = None"

definition reject_float :: "bytes \<Rightarrow> error option" where
  "reject_float val = Some ErrFloat"

definition NewInt64 :: "64 word \<Rightarrow> Value" where
  "NewInt64 v = MakeTrusted Int64 (AppendInt [] v)"

definition NewUint64 :: "64 word \<Rightarrow> Value" where
  "NewUint64 v = MakeTrusted Uint64 (AppendUint [] v)"

definition NewIntegral :: "bytes \<Rightarrow> Value \<times> error option" where
  "NewIntegral val =
     (case ParseInt val 0 64 of
        (signed_val, None) \<Rightarrow> (MakeTrusted Int64 (AppendInt [] signed_val), None)
      | (_, Some _) \<Rightarrow>
          (case ParseUint val 0 64 of
             (_, Some err) \<Rightarrow> (\<lparr>ValueType = Null, Value = []\<rparr>, Some err)
           | (unsigned_val, None) \<Rightarrow>
               (MakeTrusted Uint64 (AppendUint [] unsigned_val), None)))"

section \<open>core: the builtin None sharding strategy\<close>

text \<open>
  \<open>noneShardingStrategy\<close> is an empty struct; its methods read nothing of it. The
  \<open>*ShardingValues\<close> argument is a pointer to a structure declared elsewhere, \<open>None\<close>
  when nil.
\<close>

definition none_GetShardingColumns :: "string list" where
  "none_GetShardingColumns = []"

definition none_IsScalarValueSupported :: bool where
  "none_IsScalarValueSupported = False"

definition none_IsRangeValueSupported :: bool where
  "none_IsRangeValueSupported = False"

definition none_Shard :: "string list \<Rightarrow> 'sv option \<Rightarrow> string list \<times> error option" where
  "none_Shard sources values = (sources, None)"

section \<open>rewriting: Engine.RewriteLimit\<close>











section \<open>server: the initial handshake\<close>

text \<open>
  The constants of the packages \<open>mysql\<close> and \<open>server\<close> that the handshake reads are
  declared outside the sources at hand; they are parameters, collected in a record.
\<close>

record handshake_consts =
  ProtocolVersion :: byte
  ServerVersion :: bytes
  DefaultCapability :: "32 word"
  DefaultCollationID :: byte
  initClientConnStatus :: "16 word"

text \<open>
  Modelled from the spec: the declaration of \<open>mysql.AUTH_CACHING_SHA2_PASSWORD\<close> is
  missing; the specification names the default plugin \<open>caching_sha2_password\<close>.
\<close>

definition AUTH_CACHING_SHA2_PASSWORD :: bytes where
  "AUTH_CACHING_SHA2_PASSWORD = map of_char ''caching_sha2_password''"

text \<open>
  A client connection: the embedded \<open>*mysql.Conn\<close> (the state packets are written to,
  and its connection id) and the salt.
\<close>

record 'c ClientConn =
  Conn :: 'c
  ConnectionID :: "32 word"
  salt :: bytes

text \<open>
  Slice expressions \<open>s[:n]\<close> and \<open>s[n:]\<close> panic when \<open>n\<close> exceeds the slice (its
  capacity is taken to be its length).
\<close>

definition slice_to :: "bytes \<Rightarrow> nat \<Rightarrow> error + bytes" where
  "slice_to s n = (if n \<le> length s then Inr (take n s) else Inl PanicIndex)"

definition slice_from :: "bytes \<Rightarrow> nat \<Rightarrow> error + bytes" where
  "slice_from s n = (if n \<le> length s then Inr (drop n s) else Inl PanicIndex)"

text \<open>
  \<open>writeInitialHandshake\<close> appends to a fresh slice and hands it to \<open>WritePacket\<close>.
  \<open>Inl\<close> is a panic, \<open>Inr\<close> the connection after the write and the error returned.
\<close>

definition writeInitialHandshake ::
  "handshake_consts \<Rightarrow> ('c \<Rightarrow> bytes \<Rightarrow> 'c \<times> error option) \<Rightarrow> 'c ClientConn
     \<Rightarrow> error + ('c \<times> error option)" where
  "writeInitialHandshake K WritePacket cc =
     (let data = [];
          data = data @ [ProtocolVersion K];
          data = data @ ServerVersion K;
          data = data @ [0x00];
          data = data @ [ucast (ConnectionID cc), ucast (drop_bit 8 (ConnectionID cc)),
                         ucast (drop_bit 16 (ConnectionID cc)),
                         ucast (drop_bit 24 (ConnectionID cc))]
      in case slice_to (salt cc) 8 of
           Inl e \<Rightarrow> Inl e
         | Inr salt1 \<Rightarrow>
             (let data = data @ salt1;
                  data = data @ [0x00];
                  data = data @ [ucast (DefaultCapability K),
                                 ucast (drop_bit 8 (DefaultCapability K))];
                  data = data @ [DefaultCollationID K];
                  data = data @ [0, 0];
                  data = data @ [ucast (drop_bit 16 (DefaultCapability K)),
                                 ucast (drop_bit 24 (DefaultCapability K))];
                  data = data @ [8 + 12 + 1];
                  data = data @ [0, 0, 0, 0, 0, 0, 0, 0, 0, 0]
              in case slice_from (salt cc) 8 of
                   Inl e \<Rightarrow> Inl e
                 | Inr salt2 \<Rightarrow>
                     (let data = data @ salt2;
                          data = data @ [0x00];
                          data = data @ AUTH_CACHING_SHA2_PASSWORD;
                          data = data @ [0]
                      in Inr (WritePacket (Conn cc) data))))"

text \<open>
  Modelled from the spec: the wire primitives of package \<open>mysql\<close> (\<open>WriteByte\<close>,
  \<open>WriteUint16\<close>, \<open>WriteUint32\<close>, \<open>WriteNullString\<close>, \<open>WriteZeroes\<close>,
  \<open>LenNullString\<close>) are missing. Each writes into the buffer \<open>data\<close> at \<open>pos\<close> and
  returns the next position: one byte, little-endian integers, a string followed by a zero
  byte, \<open>n\<close> zero bytes. A store beyond the buffer is an index panic.
\<close>

type_synonym packet_pos = "bytes \<times> nat"

fun store_bytes :: "bytes \<Rightarrow> packet_pos \<Rightarrow> error + packet_pos" where
  "store_bytes [] dp = Inr dp"
| "store_bytes (b # bs) (data, pos) =
     (if pos < length data then store_bytes bs (data[pos := b], pos + 1)
      else Inl PanicIndex)"

text \<open>
  \<open>pos += copy(data[pos:], src)\<close>: the builtin copies as many bytes as fit and returns
  their number.
\<close>

fun copy_to :: "bytes \<Rightarrow> packet_pos \<Rightarrow> error + packet_pos" where
  "copy_to src (data, pos) =
     (if pos > length data then Inl PanicIndex
      else (let n = min (length data - pos) (length src)
            in Inr (take pos data @ take n src @ drop (pos + n) data, pos + n)))"

definition then_write ::
  "error + packet_pos \<Rightarrow> (packet_pos \<Rightarrow> error + packet_pos) \<Rightarrow> error + packet_pos" where
  "then_write r w = (case r of Inl e \<Rightarrow> Inl e | Inr dp \<Rightarrow> w dp)"

definition WriteByte :: "byte \<Rightarrow> packet_pos \<Rightarrow> error + packet_pos" where
  "WriteByte v = store_bytes [v]"

definition WriteUint16 :: "16 word \<Rightarrow> packet_pos \<Rightarrow> error + packet_pos" where
  "WriteUint16 v = store_bytes [ucast v, ucast (drop_bit 8 v)]"

definition WriteUint32 :: "32 word \<Rightarrow> packet_pos \<Rightarrow> error + packet_pos" where
  "WriteUint32 v =
     store_bytes [ucast v, ucast (drop_bit 8 v), ucast (drop_bit 16 v), ucast (drop_bit 24 v)]"

definition WriteZeroes :: "nat \<Rightarrow> packet_pos \<Rightarrow> error + packet_pos" where
  "WriteZeroes n = store_bytes (replicate n 0)"

definition WriteNullString :: "bytes \<Rightarrow> packet_pos \<Rightarrow> error + packet_pos" where
  "WriteNullString s dp = then_write (copy_to s dp) (store_bytes [0])"

definition LenNullString :: "bytes \<Rightarrow> nat" where
  "LenNullString s = length s + 1"

text \<open>The two copies of the salt in \<open>writeInitialHandshakeV10\<close>, with their slice expressions.\<close>

definition copy_salt_head :: "bytes \<Rightarrow> packet_pos \<Rightarrow> error + packet_pos" where
  "copy_salt_head s dp = (case slice_to s 8 of Inl e \<Rightarrow> Inl e | Inr src \<Rightarrow> copy_to src dp)"

definition copy_salt_tail :: "bytes \<Rightarrow> packet_pos \<Rightarrow> error + packet_pos" where
  "copy_salt_tail s dp = (case slice_from s 8 of Inl e \<Rightarrow> Inl e | Inr src \<Rightarrow> copy_to src dp)"

text \<open>
  \<open>writeInitialHandshakeV10\<close> fills an ephemeral packet. \<open>StartEphemeralPacket\<close> hands
  out the buffer and \<open>WriteEphemeralPacket\<close> sends it; both belong to \<open>mysql.Conn\<close> and
  are parameters. The auth plugin name is written nowhere: the source has it commented out,
  in the length and in the body.
\<close>

definition writeInitialHandshakeV10 ::
  "handshake_consts \<Rightarrow> (nat \<Rightarrow> bytes) \<Rightarrow> ('c \<Rightarrow> bytes \<Rightarrow> 'c \<times> error option)
     \<Rightarrow> 'c ClientConn \<Rightarrow> error + ('c \<times> error option)" where
  "writeInitialHandshakeV10 K StartEphemeralPacket WriteEphemeralPacket cc =
     (let len = 1 + LenNullString (ServerVersion K) + 4 + 8 + 1 + 2 + 1 + 2 + 2 + 1 + 10 + 13;
          data = StartEphemeralPacket len;
          r = Inr (data, 0);
          r = then_write r (WriteByte (ProtocolVersion K));
          r = then_write r (WriteNullString (ServerVersion K));
          r = then_write r (WriteUint32 (ConnectionID cc));
          r = then_write r (copy_salt_head (salt cc));
          r = then_write r (WriteByte 0);
          r = then_write r (WriteUint16 (ucast (DefaultCapability K)));
          r = then_write r (WriteByte (DefaultCollationID K));
          r = then_write r (WriteUint16 (initClientConnStatus K));
          r = then_write r (WriteUint16 (ucast (drop_bit 16 (DefaultCapability K))));
          r = then_write r (WriteByte 21);
          r = then_write r (WriteZeroes 10);
          r = then_write r (copy_salt_tail (salt cc));
          r = then_write r (store_bytes [0])
      in case r of
           Inl e \<Rightarrow> Inl e
         | Inr (data, pos) \<Rightarrow>
             if pos \<noteq> length data
             then Inr (Conn cc, Some (ErrOther ''error building Handshake packet''))
             else Inr (WriteEphemeralPacket (Conn cc) data))"

text \<open>
  The fields both functions write before the length of the auth plugin data, given the
  two bytes of the status flags.
\<close>

definition handshake_head :: "handshake_consts \<Rightarrow> 'c ClientConn \<Rightarrow> bytes \<Rightarrow> bytes" where
  "handshake_head K cc status =
     [ProtocolVersion K] @ ServerVersion K @ [0x00]
     @ [ucast (ConnectionID cc), ucast (drop_bit 8 (ConnectionID cc)),
        ucast (drop_bit 16 (ConnectionID cc)), ucast (drop_bit 24 (ConnectionID cc))]
     @ take 8 (salt cc) @ [0x00]
     @ [ucast (DefaultCapability K), ucast (drop_bit 8 (DefaultCapability K))]
     @ [DefaultCollationID K]
     @ status
     @ [ucast (drop_bit 16 (DefaultCapability K)), ucast (drop_bit 24 (DefaultCapability K))]"

text \<open>
  The scenario of the specification: server version \<open>5.7.0-sharding\<close>, connection id
  \<open>0x01020304\<close>, salt bytes 0 to 19; a connection that collects the packets written.
\<close>

definition scenario_consts :: handshake_consts where
  "scenario_consts =
     \<lparr>ProtocolVersion = 10, ServerVersion = map of_char ''5.7.0-sharding'',
      DefaultCapability = 0x81BEA605, DefaultCollationID = 33, initClientConnStatus = 2\<rparr>"

definition scenario_conn :: "bytes list ClientConn" where
  "scenario_conn =
     \<lparr>Conn = [], ConnectionID = 0x01020304,
      salt = [0, 1, 2, 3, 4, 5, 6, 7, 8, 9, 10, 11, 12, 13, 14, 15, 16, 17, 18, 19]\<rparr>"

definition collect_packet :: "bytes list \<Rightarrow> bytes \<Rightarrow> bytes list \<times> error option" where
  "collect_packet c p = (c @ [p], None)"

definition zeroed_packet :: "nat \<Rightarrow> bytes" where
  "zeroed_packet n = replicate n 0"

definition scenario_packet_V10 :: bytes where
  "scenario_packet_V10 =
     [10] @ map of_char ''5.7.0-sharding'' @ [0]
     @ [0x04, 0x03, 0x02, 0x01]
     @ [0, 1, 2, 3, 4, 5, 6, 7] @ [0]
     @ [0x05, 0xA6] @ [33] @ [2, 0] @ [0xBE, 0x81]
     @ [21] @ [0, 0, 0, 0, 0, 0, 0, 0, 0, 0]
     @ [8, 9, 10, 11, 12, 13, 14, 15, 16, 17, 18, 19] @ [0]"

text \<open>
  What a chain of writes has produced: the buffer has \<open>n\<close> bytes, the position stands
  after the bytes \<open>w\<close>, and the buffer begins with them.
\<close>

definition wrote :: "error + packet_pos \<Rightarrow> nat \<Rightarrow> bytes \<Rightarrow> bool" where
  "wrote r n w \<longleftrightarrow>
     (case r of
        Inl e \<Rightarrow> False
      | Inr (data, pos) \<Rightarrow> pos = length w \<and> length data = n \<and> take pos data = w)"

definition scenario_packet :: bytes where
  "scenario_packet =
     [10] @ map of_char ''5.7.0-sharding'' @ [0]
     @ [0x04, 0x03, 0x02, 0x01]
     @ [0, 1, 2, 3, 4, 5, 6, 7] @ [0]
     @ [0x05, 0xA6] @ [33] @ [0, 0] @ [0xBE, 0x81]
     @ [21] @ [0, 0, 0, 0, 0, 0, 0, 0, 0, 0]
     @ [8, 9, 10, 11, 12, 13, 14, 15, 16, 17, 18, 19] @ [0]
     @ map of_char ''caching_sha2_password'' @ [0]"

section \<open>gen: GenerateSql\<close>

datatype Usage = UsageRaw | UsageShard

record 'vars ScatterCommand =
  DataSource :: string
  SqlCommand :: string
  Vars :: 'vars

record 'vars SqlGenResult =
  Usage :: Usage
  Commands :: "'vars ScatterCommand list"

text \<open>
  \<open>GenerateSql\<close> works through pointers to an explain and to a generation runtime, whose
  methods are declared outside the sources at hand. The objects behind the pointers are
  the state \<open>'w\<close>, which every call receives and returns, so that nothing is assumed
  about what the two objects share. The methods are parameters, collected in a record;
  \<open>'bv\<close> is the list of bind variables, \<open>'vals\<close> an entry of the restored sharding
  values, \<open>'vars\<close> a snapshot of the current bind variables. An error is \<open>Some\<close> or \<open>Inl\<close>.
\<close>

record ('w, 'bv, 'vals, 'vars) gen_env =
  RestoreShardingValues :: "'bv \<Rightarrow> 'w \<Rightarrow> (error + 'vals list) \<times> 'w"
  NewRuntime :: "string \<Rightarrow> 'vals list \<Rightarrow> 'bv \<Rightarrow> 'w \<Rightarrow> error option \<times> 'w"
  SetVars :: "'bv \<Rightarrow> 'w \<Rightarrow> error option \<times> 'w"
  Next :: "'w \<Rightarrow> bool \<times> 'w"
  RestoreSql :: "'w \<Rightarrow> (error + string) \<times> 'w"
  currentDb :: "'w \<Rightarrow> string"
  GetCurrentBindVariables :: "'w \<Rightarrow> 'vars"

text \<open>
  The loop of \<open>gen\<close> has no bound of its own: it runs for as long as \<open>Next\<close> returns
  true. \<open>None\<close> is a run that never returns.
\<close>

partial_function (option) gen_loop ::
  "('w, 'bv, 'vals, 'vars) gen_env \<Rightarrow> 'vars SqlGenResult \<Rightarrow> 'w
     \<Rightarrow> ((error + 'vars SqlGenResult) \<times> 'w) option" where
  "gen_loop E genResult w =
     (case Next E w of
        (advanced, w1) \<Rightarrow>
          if advanced then
            (case RestoreSql E w1 of
               (Inl restErr, w2) \<Rightarrow> Some (Inl restErr, w2)
             | (Inr sql, w2) \<Rightarrow>
                 gen_loop E
                   (genResult\<lparr>Commands := Commands genResult @
                      [\<lparr>DataSource = currentDb E w2, SqlCommand = sql,
                        Vars = GetCurrentBindVariables E w2\<rparr>]\<rparr>)
                   w2)
          else Some (Inr genResult, w1))"

definition gen ::
  "('w, 'bv, 'vals, 'vars) gen_env \<Rightarrow> 'w \<Rightarrow> ((error + 'vars SqlGenResult) \<times> 'w) option" where
  "gen E w = gen_loop E \<lparr>Usage = UsageShard, Commands = []\<rparr> w"

definition GenerateSql ::
  "('w, 'bv, 'vals, 'vars) gen_env \<Rightarrow> string \<Rightarrow> 'bv \<Rightarrow> 'w
     \<Rightarrow> ((error + 'vars SqlGenResult) \<times> 'w) option" where
  "GenerateSql E defaultDataSource bindVariables w =
     (case RestoreShardingValues E bindVariables w of
        (Inl vErr, w1) \<Rightarrow> Some (Inl vErr, w1)
      | (Inr values, w1) \<Rightarrow>
          if length values = 0 then Some (Inr \<lparr>Usage = UsageRaw, Commands = []\<rparr>, w1)
          else
            (case NewRuntime E defaultDataSource values bindVariables w1 of
               (Some err, w2) \<Rightarrow> Some (Inl err, w2)
             | (None, w2) \<Rightarrow>
                 (case SetVars E bindVariables w2 of
                    (Some err, w3) \<Rightarrow> Some (Inl err, w3)
                  | (None, w3) \<Rightarrow>
                      (case gen E w3 of
                         None \<Rightarrow> None
                       | Some (Inl err, w4) \<Rightarrow> Some (Inl err, w4)
                       | Some (Inr r, w4) \<Rightarrow> Some (Inr r, w4)))))"

text \<open>
  The claim's account of the loop: the cursor advances \<open>n\<close> times and is exhausted at the
  next call; each advance restores a statement and yields one command of the current data
  source, the restored SQL and the current bind variables. \<open>None\<close> when the run is not of
  this shape (an advance too few or too many, or a restore that fails).
\<close>

fun scatter_run ::
  "('w, 'bv, 'vals, 'vars) gen_env \<Rightarrow> nat \<Rightarrow> 'w \<Rightarrow> ('vars ScatterCommand list \<times> 'w) option" where
  "scatter_run E 0 w =
     (case Next E w of (advanced, w1) \<Rightarrow> if advanced then None else Some ([], w1))"
| "scatter_run E (Suc n) w =
     (case Next E w of
        (advanced, w1) \<Rightarrow>
          if advanced then
            (case RestoreSql E w1 of
               (Inl restErr, w2) \<Rightarrow> None
             | (Inr sql, w2) \<Rightarrow>
                 (case scatter_run E n w2 of
                    None \<Rightarrow> None
                  | Some (cmds, w') \<Rightarrow>
                      Some (\<lparr>DataSource = currentDb E w2, SqlCommand = sql,
                             Vars = GetCurrentBindVariables E w2\<rparr> # cmds, w')))
          else None)"

text \<open>
  A small explain and runtime to run the generator on: the state is the list of the
  destinations still to visit and the current one; the sharding values are the bind
  variables themselves; the runtime visits \<open>orders_0\<close> on \<open>ds0\<close> and \<open>orders_1\<close> on \<open>ds1\<close>.
\<close>

type_synonym demo_world = "(string \<times> string) list \<times> (string \<times> string)"

definition demo_Next :: "demo_world \<Rightarrow> bool \<times> demo_world" where
  "demo_Next w =
     (case fst w of [] \<Rightarrow> (False, w) | c # cs \<Rightarrow> (True, (cs, c)))"

definition demo_env :: "(demo_world, string list, string, string list) gen_env" where
  "demo_env =
     \<lparr>RestoreShardingValues = (\<lambda>bv w. (Inr bv, w)),
      NewRuntime = (\<lambda>dds values bv w.
         (None, ([(''ds0'', ''orders_0''), (''ds1'', ''orders_1'')], (dds, [])))),
      SetVars = (\<lambda>bv w. (None, w)),
      Next = demo_Next,
      RestoreSql = (\<lambda>w. (Inr (''SELECT * FROM '' @ snd (snd w)), w)),
      currentDb = (\<lambda>w. fst (snd w)),
      GetCurrentBindVariables = (\<lambda>w. [''7''])\<rparr>"

definition demo_world0 :: demo_world where
  "demo_world0 = ([], ([], []))"

definition demo_world1 :: demo_world where
  "demo_world1 = ([(''ds0'', ''orders_0''), (''ds1'', ''orders_1'')], (''ds0'', []))"

definition demo_world2 :: demo_world where
  "demo_world2 = ([], (''ds1'', ''orders_1''))"

definition demo_commands :: "string list ScatterCommand list" where
  "demo_commands =
     [\<lparr>DataSource = ''ds0'', SqlCommand = ''SELECT * FROM orders_0'', Vars = [''7'']\<rparr>,
      \<lparr>DataSource = ''ds1'', SqlCommand = ''SELECT * FROM orders_1'', Vars = [''7'']\<rparr>]"

section \<open>server: Session.Clone\<close>

text \<open>
  \<open>Clone\<close> is about sharing, so pointers, slices and maps are addresses into an explicit
  heap. The heap is a list of cells, an address is an index into it, and a nil pointer,
  slice or map is \<open>None\<close>. Allocation appends a cell, so a fresh address is one beyond the
  heap it was allocated in. \<open>ExecuteOptions\<close>, \<open>DbSession\<close> and \<open>BindVariable\<close> are
  declared outside the sources at hand; their contents are the parameters \<open>'o\<close>, \<open>'d\<close>
  and \<open>'b\<close>. A map is a list of entries with distinct keys.
\<close>

type_synonym addr = nat

datatype ('o, 'd, 'b) cell =
    ExecuteOptionsCell 'o
  | DbSessionCell 'd
  | BindVariableCell 'b
  | DbSessionArray "addr option list"
  | StringArray "string list"
  | StringMap "(string \<times> string) list"
  | BindVariableMap "(string \<times> addr option) list"

type_synonym ('o, 'd, 'b) heap = "('o, 'd, 'b) cell list"

definition alloc :: "('o, 'd, 'b) cell \<Rightarrow> ('o, 'd, 'b) heap \<Rightarrow> addr \<times> ('o, 'd, 'b) heap" where
  "alloc c h = (length h, h @ [c])"

text \<open>Modelled from the spec: \<open>TransactionMode\<close>, with the three modes the data model lists.\<close>

datatype TransactionMode = Single | Multi | TwoPC

record Session =
  InTransaction :: bool
  Autocommit :: bool
  ShardSessions :: "addr option"
  Options :: "addr option"
  TargetString :: string
  SystemVariables :: "addr option"
  TransactionMode :: TransactionMode
  Warnings :: "addr option"
  PreSessions :: "addr option"
  PostSessions :: "addr option"
  LastInsertId :: "64 word"
  FoundRows :: "64 word"
  UserDefinedVariables :: "addr option"
  RowCount :: "64 word"
  SavePoints :: "addr option"
  InReservedConn :: bool
  LockSession :: "addr option"
  LastLockHeartbeat :: "64 word"
  DDLStrategy :: string
  SessionUUID :: string
  EnableSystemSettings :: bool

text \<open>
  A step that may panic, and otherwise returns a value and the heap it leaves.
  \<open>BadPointer\<close> stands for a pointer that leads to no cell of its type, which Go's type
  system excludes.
\<close>

type_synonym ('a, 'o, 'd, 'b) heap_step = "('o, 'd, 'b) heap \<Rightarrow> error + ('a \<times> ('o, 'd, 'b) heap)"

definition and_then ::
  "('a, 'o, 'd, 'b) heap_step \<Rightarrow> ('a \<Rightarrow> ('c, 'o, 'd, 'b) heap_step) \<Rightarrow> ('c, 'o, 'd, 'b) heap_step" where
  "and_then m f h = (case m h of Inl e \<Rightarrow> Inl e | Inr (x, h') \<Rightarrow> f x h')"

text \<open>
  Modelled from the spec: \<open>DbSession.Clone\<close> and \<open>BindVariable.Clone\<close> are missing.
  Clone is deep: the result points to a new object with the contents of the receiver.
  What \<open>DbSession.Clone\<close> does with a nil receiver is not known and stays a parameter:
  with \<open>nil_tolerant\<close> it returns nil, as \<open>Value.Clone\<close> in the sources does, without
  it the receiver is dereferenced. The sources speak for the second reading:
  \<open>cloneDbSession\<close> tests for nil before it calls \<open>Clone\<close>, a test that a tolerant
  \<open>Clone\<close> would not need.
\<close>

definition DbSession_Clone :: "bool \<Rightarrow> addr option \<Rightarrow> (addr option, 'o, 'd, 'b) heap_step" where
  "DbSession_Clone nil_tolerant s h =
     (case s of
        None \<Rightarrow> if nil_tolerant then Inr (None, h) else Inl PanicNilDeref
      | Some a \<Rightarrow>
          if a < length h then
            (case h ! a of
               DbSessionCell d \<Rightarrow> (case alloc (DbSessionCell d) h of (a', h') \<Rightarrow> Inr (Some a', h'))
             | _ \<Rightarrow> Inl BadPointer)
          else Inl BadPointer)"

definition BindVariable_Clone :: "addr option \<Rightarrow> (addr option, 'o, 'd, 'b) heap_step" where
  "BindVariable_Clone v h =
     (case v of
        None \<Rightarrow> Inl PanicNilDeref
      | Some a \<Rightarrow>
          if a < length h then
            (case h ! a of
               BindVariableCell b \<Rightarrow>
                 (case alloc (BindVariableCell b) h of (a', h') \<Rightarrow> Inr (Some a', h'))
             | _ \<Rightarrow> Inl BadPointer)
          else Inl BadPointer)"

text \<open>
  Modelled from the spec: \<open>database.CopyMap\<close> and \<open>database.CopyArray\<close> are missing.
  Every map and slice is duplicated: the result is a new map or array with the entries of
  the argument; a nil argument gives nil, as with the helpers of the sources.
\<close>

definition CopyMap :: "addr option \<Rightarrow> (addr option, 'o, 'd, 'b) heap_step" where
  "CopyMap m h =
     (case m of
        None \<Rightarrow> Inr (None, h)
      | Some a \<Rightarrow>
          if a < length h then
            (case h ! a of
               StringMap entries \<Rightarrow>
                 (case alloc (StringMap entries) h of (a', h') \<Rightarrow> Inr (Some a', h'))
             | _ \<Rightarrow> Inl BadPointer)
          else Inl BadPointer)"

definition CopyArray :: "addr option \<Rightarrow> (addr option, 'o, 'd, 'b) heap_step" where
  "CopyArray xs h =
     (case xs of
        None \<Rightarrow> Inr (None, h)
      | Some a \<Rightarrow>
          if a < length h then
            (case h ! a of
               StringArray elems \<Rightarrow>
                 (case alloc (StringArray elems) h of (a', h') \<Rightarrow> Inr (Some a', h'))
             | _ \<Rightarrow> Inl BadPointer)
          else Inl BadPointer)"

text \<open>\<open>cloneDbSession\<close>: nil stays nil, anything else is cloned.\<close>

definition cloneDbSession :: "bool \<Rightarrow> addr option \<Rightarrow> (addr option, 'o, 'd, 'b) heap_step" where
  "cloneDbSession nil_tolerant source h =
     (if source = None then Inr (None, h) else DbSession_Clone nil_tolerant source h)"

text \<open>
  \<open>cloneDbSessions\<close>: the loop clones the elements in order into the new slice
  \<open>sessions\<close>, with no test for nil. The new array is entered into the heap when it is
  complete; the source allocates it before the loop, which changes nothing but the order
  of the fresh addresses.
\<close>

fun cloneDbSessions_loop ::
  "bool \<Rightarrow> addr option list \<Rightarrow> addr option list \<Rightarrow> (addr option list, 'o, 'd, 'b) heap_step" where
  "cloneDbSessions_loop nil_tolerant [] sessions h = Inr (sessions, h)"
| "cloneDbSessions_loop nil_tolerant (s # source) sessions h =
     (case DbSession_Clone nil_tolerant s h of
        Inl e \<Rightarrow> Inl e
      | Inr (c, h') \<Rightarrow> cloneDbSessions_loop nil_tolerant source (sessions @ [c]) h')"

definition cloneDbSessions :: "bool \<Rightarrow> addr option \<Rightarrow> (addr option, 'o, 'd, 'b) heap_step" where
  "cloneDbSessions nil_tolerant source h =
     (case source of
        None \<Rightarrow> Inr (None, h)
      | Some a \<Rightarrow>
          if a < length h then
            (case h ! a of
               DbSessionArray elems \<Rightarrow>
                 (case cloneDbSessions_loop nil_tolerant elems [] h of
                    Inl e \<Rightarrow> Inl e
                  | Inr (sessions, h1) \<Rightarrow>
                      (case alloc (DbSessionArray sessions) h1 of
                         (a', h2) \<Rightarrow> Inr (Some a', h2)))
             | _ \<Rightarrow> Inl BadPointer)
          else Inl BadPointer)"

text \<open>The assignment \<open>dest[name] = v\<close> on the entries of a map.\<close>

definition map_assign :: "string \<Rightarrow> 'v \<Rightarrow> (string \<times> 'v) list \<Rightarrow> (string \<times> 'v) list" where
  "map_assign name v dest =
     (if name \<in> fst ` set dest
      then map (\<lambda>kv. if fst kv = name then (name, v) else kv) dest
      else dest @ [(name, v)])"

text \<open>
  \<open>cloneUserDefinedVariables\<close>: a nil map stays nil; otherwise every entry is visited
  once, a nil variable is entered as nil and any other one is cloned. As with the slices,
  the new map is entered into the heap when it is complete.
\<close>

fun cloneUserDefinedVariables_loop ::
  "(string \<times> addr option) list \<Rightarrow> (string \<times> addr option) list
     \<Rightarrow> ((string \<times> addr option) list, 'o, 'd, 'b) heap_step" where
  "cloneUserDefinedVariables_loop [] dest h = Inr (dest, h)"
| "cloneUserDefinedVariables_loop ((name, variable) # rest) dest h =
     (if variable = None
      then cloneUserDefinedVariables_loop rest (map_assign name None dest) h
      else
        (case BindVariable_Clone variable h of
           Inl e \<Rightarrow> Inl e
         | Inr (c, h') \<Rightarrow> cloneUserDefinedVariables_loop rest (map_assign name c dest) h'))"

definition cloneUserDefinedVariables :: "Session \<Rightarrow> (addr option, 'o, 'd, 'b) heap_step" where
  "cloneUserDefinedVariables s h =
     (case UserDefinedVariables s of
        None \<Rightarrow> Inr (None, h)
      | Some a \<Rightarrow>
          if a < length h then
            (case h ! a of
               BindVariableMap entries \<Rightarrow>
                 (case cloneUserDefinedVariables_loop entries [] h of
                    Inl e \<Rightarrow> Inl e
                  | Inr (dest, h1) \<Rightarrow>
                      (case alloc (BindVariableMap dest) h1 of
                         (a', h2) \<Rightarrow> Inr (Some a', h2)))
             | _ \<Rightarrow> Inl BadPointer)
          else Inl BadPointer)"

text \<open>
  \<open>ops := *s.Options\<close>: the receiver and its \<open>Options\<close> pointer are dereferenced
  without a test, and the copy lives in a new variable whose address the clone keeps.
\<close>

definition copy_Options :: "addr option \<Rightarrow> (addr option, 'o, 'd, 'b) heap_step" where
  "copy_Options p h =
     (case p of
        None \<Rightarrow> Inl PanicNilDeref
      | Some a \<Rightarrow>
          if a < length h then
            (case h ! a of
               ExecuteOptionsCell ops \<Rightarrow>
                 (case alloc (ExecuteOptionsCell ops) h of (a', h') \<Rightarrow> Inr (Some a', h'))
             | _ \<Rightarrow> Inl BadPointer)
          else Inl BadPointer)"

text \<open>
  \<open>Session.Clone\<close>. The receiver is a pointer, \<open>None\<close> when nil; the result is the new
  session struct and the heap with the copies.
\<close>

definition Clone :: "bool \<Rightarrow> Session option \<Rightarrow> (Session, 'o, 'd, 'b) heap_step" where
  "Clone nil_tolerant recv h =
     (case recv of
        None \<Rightarrow> Inl PanicNilDeref
      | Some s \<Rightarrow>
         (and_then (copy_Options (Options s)) (\<lambda>ops.
          and_then (cloneDbSessions nil_tolerant (ShardSessions s)) (\<lambda>shardSessions.
          and_then (CopyMap (SystemVariables s)) (\<lambda>systemVariables.
          and_then (CopyArray (Warnings s)) (\<lambda>warnings.
          and_then (cloneDbSessions nil_tolerant (PreSessions s)) (\<lambda>preSessions.
          and_then (cloneDbSessions nil_tolerant (PostSessions s)) (\<lambda>postSessions.
          and_then (cloneUserDefinedVariables s) (\<lambda>userDefinedVariables.
          and_then (CopyArray (SavePoints s)) (\<lambda>savePoints.
          and_then (cloneDbSession nil_tolerant (LockSession s)) (\<lambda>lockSession h.
            Inr (\<lparr>InTransaction = InTransaction s,
                  Autocommit = Autocommit s,
                  ShardSessions = shardSessions,
                  Options = ops,
                  TargetString = TargetString s,
                  SystemVariables = systemVariables,
                  TransactionMode = TransactionMode s,
                  Warnings = warnings,
                  PreSessions = preSessions,
                  PostSessions = postSessions,
                  LastInsertId = LastInsertId s,
                  FoundRows = FoundRows s,
                  UserDefinedVariables = userDefinedVariables,
                  RowCount = RowCount s,
                  SavePoints = savePoints,
                  InReservedConn = InReservedConn s,
                  LockSession = lockSession,
                  LastLockHeartbeat = LastLockHeartbeat s,
                  DDLStrategy = DDLStrategy s,
                  SessionUUID = SessionUUID s,
                  EnableSystemSettings = EnableSystemSettings s\<rparr>, h))))))))))) h)"

text \<open>
  What the claim asks of a heap and a session before the call: every pointer leads to a
  cell of its type. The slices of sessions hold no nil pointer, unless \<open>DbSession.Clone\<close>
  tolerates one; the keys of a map are distinct.
\<close>

definition points_to ::
  "(('o, 'd, 'b) cell \<Rightarrow> bool) \<Rightarrow> ('o, 'd, 'b) heap \<Rightarrow> addr option \<Rightarrow> bool" where
  "points_to P h p = (case p of None \<Rightarrow> True | Some a \<Rightarrow> a < length h \<and> P (h ! a))"

definition is_options :: "('o, 'd, 'b) cell \<Rightarrow> bool" where
  "is_options c = (case c of ExecuteOptionsCell x \<Rightarrow> True | _ \<Rightarrow> False)"

definition is_db_session :: "('o, 'd, 'b) cell \<Rightarrow> bool" where
  "is_db_session c = (case c of DbSessionCell x \<Rightarrow> True | _ \<Rightarrow> False)"

definition is_bind_variable :: "('o, 'd, 'b) cell \<Rightarrow> bool" where
  "is_bind_variable c = (case c of BindVariableCell x \<Rightarrow> True | _ \<Rightarrow> False)"

definition is_string_array :: "('o, 'd, 'b) cell \<Rightarrow> bool" where
  "is_string_array c = (case c of StringArray x \<Rightarrow> True | _ \<Rightarrow> False)"

definition is_string_map :: "('o, 'd, 'b) cell \<Rightarrow> bool" where
  "is_string_map c = (case c of StringMap x \<Rightarrow> True | _ \<Rightarrow> False)"

definition is_sessions :: "bool \<Rightarrow> ('o, 'd, 'b) heap \<Rightarrow> ('o, 'd, 'b) cell \<Rightarrow> bool" where
  "is_sessions nil_tolerant h c =
     (case c of
        DbSessionArray elems \<Rightarrow>
          list_all (\<lambda>q. (nil_tolerant \<or> q \<noteq> None) \<and> points_to is_db_session h q) elems
      | _ \<Rightarrow> False)"

definition is_bind_map :: "('o, 'd, 'b) heap \<Rightarrow> ('o, 'd, 'b) cell \<Rightarrow> bool" where
  "is_bind_map h c =
     (case c of
        BindVariableMap entries \<Rightarrow>
          distinct (map fst entries)
          \<and> list_all (points_to is_bind_variable h) (map snd entries)
      | _ \<Rightarrow> False)"

definition valid_session :: "bool \<Rightarrow> ('o, 'd, 'b) heap \<Rightarrow> Session \<Rightarrow> bool" where
  "valid_session nil_tolerant h s \<longleftrightarrow>
     points_to is_options h (Options s)
     \<and> points_to (is_sessions nil_tolerant h) h (ShardSessions s)
     \<and> points_to is_string_map h (SystemVariables s)
     \<and> points_to is_string_array h (Warnings s)
     \<and> points_to (is_sessions nil_tolerant h) h (PreSessions s)
     \<and> points_to (is_sessions nil_tolerant h) h (PostSessions s)
     \<and> points_to (is_bind_map h) h (UserDefinedVariables s)
     \<and> points_to is_string_array h (SavePoints s)
     \<and> points_to is_db_session h (LockSession s)"

text \<open>
  A fresh copy: nil for nil, and otherwise an address that the old heap \<open>h0\<close> does not
  have, with the contents the original has. For a slice of sessions and for the map of
  variables the elements are fresh copies in turn.
\<close>

definition copied :: "('o, 'd, 'b) heap \<Rightarrow> ('o, 'd, 'b) heap \<Rightarrow> addr option \<Rightarrow> addr option \<Rightarrow> bool" where
  "copied h0 h p p' =
     (case p of
        None \<Rightarrow> p' = None
      | Some a \<Rightarrow>
          (case p' of
             None \<Rightarrow> False
           | Some a' \<Rightarrow> length h0 \<le> a' \<and> a' < length h \<and> h ! a' = h0 ! a))"

definition copied_sessions ::
  "('o, 'd, 'b) heap \<Rightarrow> ('o, 'd, 'b) heap \<Rightarrow> addr option \<Rightarrow> addr option \<Rightarrow> bool" where
  "copied_sessions h0 h p p' =
     (case p of
        None \<Rightarrow> p' = None
      | Some a \<Rightarrow>
          (case p' of
             None \<Rightarrow> False
           | Some a' \<Rightarrow>
               length h0 \<le> a' \<and> a' < length h \<and>
               (case h0 ! a of
                  DbSessionArray elems \<Rightarrow>
                    (case h ! a' of
                       DbSessionArray elems' \<Rightarrow> list_all2 (copied h0 h) elems elems'
                     | _ \<Rightarrow> False)
                | _ \<Rightarrow> False)))"

definition copied_bind_map ::
  "('o, 'd, 'b) heap \<Rightarrow> ('o, 'd, 'b) heap \<Rightarrow> addr option \<Rightarrow> addr option \<Rightarrow> bool" where
  "copied_bind_map h0 h p p' =
     (case p of
        None \<Rightarrow> p' = None
      | Some a \<Rightarrow>
          (case p' of
             None \<Rightarrow> False
           | Some a' \<Rightarrow>
               length h0 \<le> a' \<and> a' < length h \<and>
               (case h0 ! a of
                  BindVariableMap entries \<Rightarrow>
                    (case h ! a' of
                       BindVariableMap entries' \<Rightarrow>
                         map fst entries' = map fst entries
                         \<and> list_all2 (copied h0 h) (map snd entries) (map snd entries')
                     | _ \<Rightarrow> False)
                | _ \<Rightarrow> False)))"

text \<open>
  The clone of the claim: equal to the original in every field that is not a pointer, and
  a fresh copy in every other field.
\<close>

definition cloned_session ::
  "('o, 'd, 'b) heap \<Rightarrow> ('o, 'd, 'b) heap \<Rightarrow> Session \<Rightarrow> Session \<Rightarrow> bool" where
  "cloned_session h0 h s s' \<longleftrightarrow>
     InTransaction s' = InTransaction s
     \<and> Autocommit s' = Autocommit s
     \<and> TargetString s' = TargetString s
     \<and> TransactionMode s' = TransactionMode s
     \<and> LastInsertId s' = LastInsertId s
     \<and> FoundRows s' = FoundRows s
     \<and> RowCount s' = RowCount s
     \<and> InReservedConn s' = InReservedConn s
     \<and> LastLockHeartbeat s' = LastLockHeartbeat s
     \<and> DDLStrategy s' = DDLStrategy s
     \<and> SessionUUID s' = SessionUUID s
     \<and> EnableSystemSettings s' = EnableSystemSettings s
     \<and> copied h0 h (Options s) (Options s')
     \<and> copied_sessions h0 h (ShardSessions s) (ShardSessions s')
     \<and> copied h0 h (SystemVariables s) (SystemVariables s')
     \<and> copied h0 h (Warnings s) (Warnings s')
     \<and> copied_sessions h0 h (PreSessions s) (PreSessions s')
     \<and> copied_sessions h0 h (PostSessions s) (PostSessions s')
     \<and> copied_bind_map h0 h (UserDefinedVariables s) (UserDefinedVariables s')
     \<and> copied h0 h (SavePoints s) (SavePoints s')
     \<and> copied h0 h (LockSession s) (LockSession s')"

text \<open>
  A session to run \<open>Clone\<close> on: options, two shard sessions, a system variable, a
  warning, two user-defined variables (one of them nil), a savepoint and a lock session
  that is also the first shard session.
\<close>

definition demo_heap :: "(string, string, string) heap" where
  "demo_heap =
     [ExecuteOptionsCell ''workload=oltp'',
      DbSessionCell ''ds0'',
      DbSessionCell ''ds1'',
      DbSessionArray [Some 1, Some 2],
      StringMap [(''sql_mode'', ''ANSI'')],
      StringArray [''truncated''],
      BindVariableCell ''7'',
      BindVariableMap [(''a'', Some 6), (''b'', None)],
      StringArray [''sp1'']]"

definition demo_session :: Session where
  "demo_session =
     \<lparr>InTransaction = True, Autocommit = False, ShardSessions = Some 3, Options = Some 0,
      TargetString = ''ks@primary'', SystemVariables = Some 4, TransactionMode = Multi,
      Warnings = Some 5, PreSessions = None, PostSessions = None, LastInsertId = 5,
      FoundRows = 1, UserDefinedVariables = Some 7, RowCount = 1, SavePoints = Some 8,
      InReservedConn = False, LockSession = Some 1, LastLockHeartbeat = 0,
      DDLStrategy = ''online'', SessionUUID = ''u1'', EnableSystemSettings = True\<rparr>"

definition demo_copies :: "(string, string, string) heap" where
  "demo_copies =
     [ExecuteOptionsCell ''workload=oltp'',
      DbSessionCell ''ds0'',
      DbSessionCell ''ds1'',
      DbSessionArray [Some 10, Some 11],
      StringMap [(''sql_mode'', ''ANSI'')],
      StringArray [''truncated''],
      BindVariableCell ''7'',
      BindVariableMap [(''a'', Some 15), (''b'', None)],
      StringArray [''sp1''],
      DbSessionCell ''ds0'']"

definition demo_clone :: Session where
  "demo_clone =
     \<lparr>InTransaction = True, Autocommit = False, ShardSessions = Some 12, Options = Some 9,
      TargetString = ''ks@primary'', SystemVariables = Some 13, TransactionMode = Multi,
      Warnings = Some 14, PreSessions = None, PostSessions = None, LastInsertId = 5,
      FoundRows = 1, UserDefinedVariables = Some 16, RowCount = 1, SavePoints = Some 17,
      InReservedConn = False, LockSession = Some 18, LastLockHeartbeat = 0,
      DDLStrategy = ''online'', SessionUUID = ''u1'', EnableSystemSettings = True\<rparr>"



section \<open>Verification: the SQL escape table\<close>

lemma init_fill_length:
  "length (fst (fold init_fill is m)) = length (fst m)"
  by (induction "is" arbitrary: m) (simp_all add: init_fill_def)

lemma init_fill_nth:
  "k < length (fst m) \<Longrightarrow>
   fst (fold init_fill is m) ! k = (if k \<in> set is then DontEscape else fst m ! k)"
  by (induction "is" arbitrary: m) (auto simp: init_fill_def nth_list_update)

lemma unat_byte_of_nat: "i < 256 \<Longrightarrow> unat (of_nat i :: byte) = i"
  by (simp add: unat_of_nat)

lemma init_enter_nth:
  "k < length (fst m) \<Longrightarrow> \<forall>i\<in>set is. i < 256 \<Longrightarrow>
   fst (fold init_enter is m) ! k =
     (if k \<in> set is
      then (case map_of encodeRef (of_nat k :: byte) of Some to \<Rightarrow> to | None \<Rightarrow> fst m ! k)
      else fst m ! k)"
proof (induction "is" arbitrary: m)
  case Nil
  then show ?case by simp
next
  case (Cons i "is")
  have len: "k < length (fst (init_enter i m))"
    using Cons.prems(1) by (simp add: init_enter_def split: option.splits)
  have i: "i < 256" using Cons.prems(2) by simp
  have step: "fst (init_enter i m) ! k =
      (if k = i then (case map_of encodeRef (of_nat k :: byte) of Some to \<Rightarrow> to | None \<Rightarrow> fst m ! k)
       else fst m ! k)"
    using Cons.prems(1) i
    by (auto simp: init_enter_def unat_byte_of_nat nth_list_update split: option.splits)
  show ?case
    using Cons.IH [OF len] Cons.prems(2) step
    by (auto split: option.splits)
qed

lemma SQLEncodeMap_nth:
  "k < 256 \<Longrightarrow>
   SQLEncodeMap ! k =
     (case map_of encodeRef (of_nat k :: byte) of Some to \<Rightarrow> to | None \<Rightarrow> DontEscape)"
  unfolding SQLEncodeMap_def init_def
  by (subst init_enter_nth) (auto simp: init_fill_length init_fill_nth split: option.splits)

lemma SQLEncodeMap_byte:
  "SQLEncodeMap ! unat (ch :: byte) =
     (case map_of encodeRef ch of Some to \<Rightarrow> to | None \<Rightarrow> DontEscape)"
proof -
  have "unat ch < 2 ^ LENGTH(8)" by (rule unsigned_less)
  then have "unat ch < 256" by simp
  then show ?thesis by (simp add: SQLEncodeMap_nth)
qed

lemma encode_step_table: "encode_step buf ch = buf @ escape_table ch"
  by (simp add: encode_step_def SQLEncodeMap_byte encodeRef_def escape_table_def
      DontEscape_def Let_def)

lemma encode_loop_table: "foldl encode_step buf val = buf @ concat (map escape_table val)"
  by (induction val arbitrary: buf) (simp_all add: encode_step_table)

lemma encodeBytesSQL_table:
  "encodeBytesSQL val Write b = Write b (0x27 # concat (map escape_table val) @ [0x27])"
  by (simp add: encodeBytesSQL_def encode_loop_table)

lemma IsQuoted_not_Null: "IsQuoted t \<Longrightarrow> t \<noteq> Null"
  by (cases t) simp_all

text \<open>
  Claim C1. For every byte sequence, \<open>EncodeSQL\<close> on a value of a quoted type hands the
  writer, in one \<open>Write\<close>, a single-quoted literal in which exactly the bytes 0x00, 0x08,
  0x09, 0x0A, 0x0D, 0x1A, the single quote, the double quote and the backslash are
  written as a backslash followed by their mapped character, and every other byte is
  written unchanged; in particular the VarChar value \<open>O'Brien\<close> followed by a newline is
  written as \<open>'O\'Brien\n'\<close>.
\<close>

theorem EncodeSQL_quoted_escape:
  "(IsQuoted (ValueType v) \<longrightarrow>
      EncodeSQL v Write b = Write b ([0x27] @ concat (map escape_table (Value v)) @ [0x27]))
   \<and> EncodeSQL (NewVarChar obrien) buffer_Write [] = (obrien_sql, None)"
proof
  show "IsQuoted (ValueType v) \<longrightarrow>
      EncodeSQL v Write b = Write b ([0x27] @ concat (map escape_table (Value v)) @ [0x27])"
    by (simp add: EncodeSQL_def encodeBytesSQL_table IsQuoted_not_Null)
  show "EncodeSQL (NewVarChar obrien) buffer_Write [] = (obrien_sql, None)"
    by (simp add: EncodeSQL_def encodeBytesSQL_table NewVarChar_def MakeTrusted_def
        buffer_Write_def obrien_def obrien_sql_def escape_table_def)
qed

theorem EncodeSQL_quoted_escape_witness:
  "IsQuoted (ValueType (NewVarBinary [0x00, 0x08, 0x09, 0x0A, 0x0D, 0x1A, 0x27, 0x22, 0x5C, 0x41, 0xFF]))
   \<and> EncodeSQL (NewVarBinary [0x00, 0x08, 0x09, 0x0A, 0x0D, 0x1A, 0x27, 0x22, 0x5C, 0x41, 0xFF])
        buffer_Write []
     = ([0x27, 0x5C, 0x30, 0x5C, 0x62, 0x5C, 0x74, 0x5C, 0x6E, 0x5C, 0x72, 0x5C, 0x5A,
         0x5C, 0x27, 0x5C, 0x22, 0x5C, 0x5C, 0x41, 0xFF, 0x27], None)"
  using EncodeSQL_quoted_escape
    [of "NewVarBinary [0x00, 0x08, 0x09, 0x0A, 0x0D, 0x1A, 0x27, 0x22, 0x5C, 0x41, 0xFF]"
        buffer_Write "[]"]
  by (simp add: NewVarBinary_def MakeTrusted_def buffer_Write_def escape_table_def)

section \<open>Verification: the integer parsers\<close>

lemma digit_val_sign: "digit_val 0x2B = None" "digit_val 0x2D = None"
  by (simp_all add: digit_val_def lower_def)

lemma base_prefix_sign:
  "c = 0x2B \<or> c = 0x2D \<Longrightarrow> base_prefix (c # s) = (10, c # s)"
  by (auto simp: base_prefix_def)

lemma ParseUint_loop_sign:
  "c = 0x2B \<or> c = 0x2D \<Longrightarrow>
   ParseUint_loop base0 base cutoff maxVal (c # s) underscores n = Inl (0, ErrSyntax)"
  by (auto simp: digit_val_sign)

lemma ParseUint_sign:
  assumes "c = 0x2B \<or> c = 0x2D"
  shows "ParseUint (c # s) 0 64 = (0, Some ErrSyntax)"
  by (simp add: ParseUint_def Let_def base_prefix_sign [OF assms] ParseUint_loop_sign [OF assms]
      del: ParseUint_loop.simps)

lemma ParseUint_empty: "ParseUint [] base bitSize = (0, Some ErrSyntax)"
  by (simp add: ParseUint_def)

text \<open>A string that \<open>ParseUint\<close> accepts is not empty and carries no sign.\<close>

lemma ParseUint_ok_unsigned:
  assumes "snd (ParseUint s 0 64) = None"
  shows "s \<noteq> [] \<and> s ! 0 \<noteq> 0x2B \<and> s ! 0 \<noteq> 0x2D"
proof (cases s)
  case Nil
  then show ?thesis using assms by (simp add: ParseUint_empty)
next
  case (Cons c s')
  show ?thesis
  proof (cases "c = 0x2B \<or> c = 0x2D")
    case True
    then show ?thesis using assms Cons by (simp add: ParseUint_sign)
  next
    case False
    then show ?thesis using Cons by simp
  qed
qed

text \<open>On such a string \<open>ParseInt\<close> only adds the check against \<open>1 << 63\<close>.\<close>

lemma ParseInt_of_ParseUint:
  assumes "snd (ParseUint s 0 64) = None"
  shows "ParseInt s 0 64 =
     (if fst (ParseUint s 0 64) \<ge> 0x8000000000000000 then (0x7FFFFFFFFFFFFFFF, Some ErrRange)
      else (fst (ParseUint s 0 64), None))"
  using ParseUint_ok_unsigned [OF assms] assms
  by (simp add: ParseInt_def Let_def split_beta)

lemma IsSigned_not_Null: "IsSigned t \<Longrightarrow> t \<noteq> Null"
  by (cases t) simp_all

lemma IsUnsigned_not_Null: "IsUnsigned t \<Longrightarrow> t \<noteq> Null"
  by (cases t) simp_all

lemma IsUnsigned_not_Signed: "IsUnsigned t \<Longrightarrow> \<not> IsSigned t"
  by (cases t) simp_all

lemma NewValue_signed:
  "IsSigned typ \<Longrightarrow>
   NewValue parseFloat typ val =
     (case snd (ParseInt val 0 64) of
        None \<Rightarrow> (\<lparr>ValueType = typ, Value = val\<rparr>, None)
      | Some err \<Rightarrow> (NULL, Some err))"
  by (simp add: NewValue_def MakeTrusted_def IsSigned_not_Null split: option.splits)

lemma NewValue_unsigned:
  "IsUnsigned typ \<Longrightarrow>
   NewValue parseFloat typ val =
     (case snd (ParseUint val 0 64) of
        None \<Rightarrow> (\<lparr>ValueType = typ, Value = val\<rparr>, None)
      | Some err \<Rightarrow> (NULL, Some err))"
  by (simp add: NewValue_def MakeTrusted_def IsUnsigned_not_Null IsUnsigned_not_Signed
      split: option.splits)

text \<open>
  Claim C2, as stated, fails: \<open>NewValue\<close> checks that the bytes parse and then keeps them
  as they are. The bytes \<open>0x10\<close> parse in base 0 as the integer 16, \<open>NewValue\<close> with the
  type \<open>Int64\<close> succeeds, and the value carries the four bytes \<open>0x10\<close>, not the decimal
  rendering \<open>16\<close>.
\<close>

theorem NewValue_not_canonical:
  "IsSigned Int64
   \<and> ParseInt (map of_char ''0x10'') 0 64 = (16, None)
   \<and> snd (NewValue accept_float Int64 (map of_char ''0x10'')) = None
   \<and> Value (fst (NewValue accept_float Int64 (map of_char ''0x10''))) = map of_char ''0x10''
   \<and> AppendInt [] 16 = map of_char ''16''
   \<and> Value (fst (NewValue accept_float Int64 (map of_char ''0x10''))) \<noteq> AppendInt [] 16"
  by code_simp

text \<open>
  Claim C2, amended. For a signed integer type \<open>NewValue\<close> succeeds exactly when
  \<open>ParseInt\<close> accepts the bytes in base 0 with 64 bits, for an unsigned integer type
  exactly when \<open>ParseUint\<close> does; on success the value carries the type and the given
  bytes unchanged, and on failure the parser's error is returned with the NULL value.
\<close>

theorem NewValue_integral_validates:
  "(IsSigned typ \<longrightarrow>
      (snd (ParseInt val 0 64) = None \<longrightarrow>
         NewValue parseFloat typ val = (\<lparr>ValueType = typ, Value = val\<rparr>, None))
      \<and> (snd (ParseInt val 0 64) \<noteq> None \<longrightarrow>
         NewValue parseFloat typ val = (NULL, snd (ParseInt val 0 64))))
   \<and> (IsUnsigned typ \<longrightarrow>
      (snd (ParseUint val 0 64) = None \<longrightarrow>
         NewValue parseFloat typ val = (\<lparr>ValueType = typ, Value = val\<rparr>, None))
      \<and> (snd (ParseUint val 0 64) \<noteq> None \<longrightarrow>
         NewValue parseFloat typ val = (NULL, snd (ParseUint val 0 64))))"
  by (auto simp: NewValue_signed NewValue_unsigned)

theorem NewValue_integral_validates_witness:
  "IsSigned Int32 \<and> snd (ParseInt (map of_char ''-0x1F'') 0 64) = None
   \<and> NewValue reject_float Int32 (map of_char ''-0x1F'')
       = (\<lparr>ValueType = Int32, Value = map of_char ''-0x1F''\<rparr>, None)
   \<and> IsSigned Int64 \<and> snd (ParseInt (map of_char ''9223372036854775808'') 0 64) \<noteq> None
   \<and> NewValue reject_float Int64 (map of_char ''9223372036854775808'')
       = (NULL, Some ErrRange)
   \<and> IsUnsigned Uint64 \<and> snd (ParseUint (map of_char ''0777'') 0 64) = None
   \<and> NewValue reject_float Uint64 (map of_char ''0777'')
       = (\<lparr>ValueType = Uint64, Value = map of_char ''0777''\<rparr>, None)
   \<and> IsUnsigned Uint8 \<and> snd (ParseUint (map of_char ''-1'') 0 64) \<noteq> None
   \<and> NewValue reject_float Uint8 (map of_char ''-1'') = (NULL, Some ErrSyntax)"
proof -
  have p1: "snd (ParseInt (map of_char ''-0x1F'') 0 64) = None" by code_simp
  have p2: "snd (ParseInt (map of_char ''9223372036854775808'') 0 64) = Some ErrRange"
    by code_simp
  have p3: "snd (ParseUint (map of_char ''0777'') 0 64) = None" by code_simp
  have p4: "snd (ParseUint (map of_char ''-1'') 0 64) = Some ErrSyntax" by code_simp
  show ?thesis
    using p1 p2 p3 p4
      NewValue_integral_validates [of Int32 "map of_char ''-0x1F''" reject_float]
      NewValue_integral_validates [of Int64 "map of_char ''9223372036854775808''" reject_float]
      NewValue_integral_validates [of Uint64 "map of_char ''0777''" reject_float]
      NewValue_integral_validates [of Uint8 "map of_char ''-1''" reject_float]
    by simp
qed

text \<open>
  Claim C7. \<open>NewIntegral\<close> returns a value of type \<open>Int64\<close>, carrying the decimal
  rendering of the number, whenever the string parses as a signed 64-bit integer (also
  when it would parse as an unsigned one); otherwise a value of type \<open>Uint64\<close> when it
  parses as an unsigned 64-bit integer, and then the number does not fit the signed
  range; and an error when it parses as neither.
\<close>

theorem NewIntegral_prefers_Int64:
  "(snd (ParseInt s 0 64) = None \<longrightarrow>
      NewIntegral s =
        (\<lparr>ValueType = Int64, Value = AppendInt [] (fst (ParseInt s 0 64))\<rparr>, None))
   \<and> (snd (ParseInt s 0 64) \<noteq> None \<and> snd (ParseUint s 0 64) = None \<longrightarrow>
      NewIntegral s =
        (\<lparr>ValueType = Uint64, Value = AppendUint [] (fst (ParseUint s 0 64))\<rparr>, None)
      \<and> fst (ParseUint s 0 64) \<ge> 0x8000000000000000)
   \<and> (snd (ParseInt s 0 64) \<noteq> None \<and> snd (ParseUint s 0 64) \<noteq> None \<longrightarrow>
      snd (NewIntegral s) = snd (ParseUint s 0 64) \<and> snd (NewIntegral s) \<noteq> None)"
proof (intro conjI impI)
  assume "snd (ParseInt s 0 64) = None"
  then show "NewIntegral s =
      (\<lparr>ValueType = Int64, Value = AppendInt [] (fst (ParseInt s 0 64))\<rparr>, None)"
    by (cases "ParseInt s 0 64") (simp add: NewIntegral_def MakeTrusted_def)
next
  assume a: "snd (ParseInt s 0 64) \<noteq> None \<and> snd (ParseUint s 0 64) = None"
  then show "NewIntegral s =
      (\<lparr>ValueType = Uint64, Value = AppendUint [] (fst (ParseUint s 0 64))\<rparr>, None)"
    by (cases "ParseInt s 0 64"; cases "ParseUint s 0 64")
       (auto simp: NewIntegral_def MakeTrusted_def)
  from a show "fst (ParseUint s 0 64) \<ge> 0x8000000000000000"
    using ParseInt_of_ParseUint [of s] by (auto split: if_splits)
next
  assume a: "snd (ParseInt s 0 64) \<noteq> None \<and> snd (ParseUint s 0 64) \<noteq> None"
  then show "snd (NewIntegral s) = snd (ParseUint s 0 64)"
    by (cases "ParseInt s 0 64"; cases "ParseUint s 0 64")
       (auto simp: NewIntegral_def)
  with a show "snd (NewIntegral s) \<noteq> None" by simp
qed

theorem NewIntegral_prefers_Int64_witness:
  "snd (ParseInt (map of_char ''0x7fffffffffffffff'') 0 64) = None
   \<and> snd (ParseUint (map of_char ''0x7fffffffffffffff'') 0 64) = None
   \<and> NewIntegral (map of_char ''0x7fffffffffffffff'')
       = (\<lparr>ValueType = Int64, Value = map of_char ''9223372036854775807''\<rparr>, None)
   \<and> snd (ParseInt (map of_char ''-42'') 0 64) = None
   \<and> NewIntegral (map of_char ''-42'')
       = (\<lparr>ValueType = Int64, Value = map of_char ''-42''\<rparr>, None)
   \<and> snd (ParseInt (map of_char ''9223372036854775808'') 0 64) \<noteq> None
   \<and> snd (ParseUint (map of_char ''9223372036854775808'') 0 64) = None
   \<and> NewIntegral (map of_char ''9223372036854775808'')
       = (\<lparr>ValueType = Uint64, Value = map of_char ''9223372036854775808''\<rparr>, None)
   \<and> snd (ParseInt (map of_char ''18446744073709551616'') 0 64) \<noteq> None
   \<and> snd (ParseUint (map of_char ''18446744073709551616'') 0 64) \<noteq> None
   \<and> snd (NewIntegral (map of_char ''18446744073709551616'')) = Some ErrRange"
proof -
  have p1: "ParseInt (map of_char ''0x7fffffffffffffff'') 0 64 = (9223372036854775807, None)"
    by code_simp
  have p1u: "snd (ParseUint (map of_char ''0x7fffffffffffffff'') 0 64) = None"
    by code_simp
  have a1: "AppendInt [] 9223372036854775807 = map of_char ''9223372036854775807''"
    by code_simp
  have p2: "ParseInt (map of_char ''-42'') 0 64 = (- 42, None)"
    by code_simp
  have a2: "AppendInt [] (- 42) = map of_char ''-42''"
    by code_simp
  have p3: "snd (ParseInt (map of_char ''9223372036854775808'') 0 64) = Some ErrRange"
    by code_simp
  have p3u: "ParseUint (map of_char ''9223372036854775808'') 0 64 = (9223372036854775808, None)"
    by code_simp
  have a3: "AppendUint [] 9223372036854775808 = map of_char ''9223372036854775808''"
    by code_simp
  have p4: "snd (ParseInt (map of_char ''18446744073709551616'') 0 64) = Some ErrRange"
    by code_simp
  have p4u: "snd (ParseUint (map of_char ''18446744073709551616'') 0 64) = Some ErrRange"
    by code_simp
  show ?thesis
    using p1 p1u a1 p2 a2 p3 p3u a3 p4 p4u
      NewIntegral_prefers_Int64 [of "map of_char ''0x7fffffffffffffff''"]
      NewIntegral_prefers_Int64 [of "map of_char ''-42''"]
      NewIntegral_prefers_Int64 [of "map of_char ''9223372036854775808''"]
      NewIntegral_prefers_Int64 [of "map of_char ''18446744073709551616''"]
    by simp
qed

section \<open>Verification: NULL, Equals and the None strategy\<close>

text \<open>
  Claim C8. For every byte sequence, \<open>MakeTrusted\<close> and \<open>NewValue\<close> with the type
  \<open>Null\<close> yield the canonical \<open>NULL\<close> value, whose bytes are empty; and whatever the
  type, a value either constructor returns with the type code \<open>Null\<close> has empty bytes.
\<close>

theorem Null_value_has_no_bytes:
  "MakeTrusted Null b = NULL
   \<and> NewValue parseFloat Null b = (NULL, None)
   \<and> ValueType NULL = Null \<and> Value NULL = []
   \<and> (ValueType (MakeTrusted typ b) = Null \<longrightarrow> Value (MakeTrusted typ b) = [])
   \<and> (ValueType (fst (NewValue parseFloat typ b)) = Null \<longrightarrow>
        Value (fst (NewValue parseFloat typ b)) = [])"
  by (auto simp: MakeTrusted_def NewValue_def NULL_def split: option.splits if_splits)

theorem Null_value_has_no_bytes_witness:
  "ValueType (MakeTrusted Null [0x61, 0x62]) = Null
   \<and> Value (MakeTrusted Null [0x61, 0x62]) = []
   \<and> ValueType (fst (NewValue accept_float Null [0x61, 0x62])) = Null
   \<and> Value (fst (NewValue accept_float Null [0x61, 0x62])) = []
   \<and> NewValue accept_float Null [0x61, 0x62] = (NULL, None)"
  using Null_value_has_no_bytes [of "[0x61, 0x62]" accept_float Null]
  by (simp add: NULL_def)

text \<open>
  Claim C10. \<open>Equals\<close> returns true only when its argument has the dynamic type
  pointer-to-Value and points to a value with the same type code and equal bytes; for an
  argument of any other dynamic type, also a \<open>Value\<close> passed by value with the same type
  and bytes, it returns false.
\<close>

theorem Equals_pointer_only:
  "(Equals v x = Inr True \<longrightarrow>
      (\<exists>a b. v = Some a \<and> x = IPtrValue (Some b)
             \<and> ValueType a = ValueType b \<and> Value a = Value b))
   \<and> ((\<forall>p. x \<noteq> IPtrValue p) \<longrightarrow> Equals v x = Inr False)
   \<and> Equals (Some a) (IValue a) = Inr False
   \<and> Equals (Some a) (IPtrValue (Some a)) = Inr True"
proof (intro conjI impI)
  assume "Equals v x = Inr True"
  then show "\<exists>a b. v = Some a \<and> x = IPtrValue (Some b)
             \<and> ValueType a = ValueType b \<and> Value a = Value b"
    by (cases x; cases v) (auto split: option.splits)
next
  assume "\<forall>p. x \<noteq> IPtrValue p"
  then show "Equals v x = Inr False"
    by (cases x) simp_all
qed simp_all

theorem Equals_pointer_only_witness:
  "Equals (Some (NewVarChar [0x61])) (IPtrValue (Some (NewVarChar [0x61]))) = Inr True
   \<and> Equals (Some (NewVarChar [0x61])) (IValue (NewVarChar [0x61])) = Inr False
   \<and> Equals (Some (NewVarChar [0x61])) (IString [0x61]) = Inr False
   \<and> Equals (Some (NewVarChar [0x61])) (IPtrValue (Some (NewVarBinary [0x61]))) = Inr False"
  using Equals_pointer_only [of "Some (NewVarChar [0x61])" "IValue (NewVarChar [0x61])"]
    Equals_pointer_only [of "Some (NewVarChar [0x61])" "IString [0x61]"]
    Equals_pointer_only [of "Some (NewVarChar [0x61])"
      "IPtrValue (Some (NewVarBinary [0x61]))"]
  by (simp add: NewVarChar_def NewVarBinary_def MakeTrusted_def)

text \<open>
  Claim C6. The builtin None strategy returns the candidate sources unchanged and no
  error from \<open>Shard\<close>, whatever the sharding values; it has no sharding columns; and it
  supports neither scalar nor range values.
\<close>

theorem none_strategy_passes_through:
  "none_Shard sources values = (sources, None)
   \<and> none_GetShardingColumns = []
   \<and> none_IsScalarValueSupported = False
   \<and> none_IsRangeValueSupported = False"
  by (simp add: none_Shard_def none_GetShardingColumns_def none_IsScalarValueSupported_def
      none_IsRangeValueSupported_def)

section \<open>Verification: RewriteLimit\<close>




section \<open>Verification: the initial handshake\<close>

lemma store_bytes_take:
  "pos + length bs \<le> length data \<Longrightarrow>
   \<exists>data'. store_bytes bs (data, pos) = Inr (data', pos + length bs)
          \<and> length data' = length data
          \<and> take (pos + length bs) data' = take pos data @ bs"
proof (induction bs arbitrary: data pos)
  case Nil
  then show ?case by simp
next
  case (Cons b bs)
  have lt: "pos < length data" using Cons.prems by simp
  have "Suc pos + length bs \<le> length (data[pos := b])" using Cons.prems by simp
  from Cons.IH [OF this]
  obtain data' where d: "store_bytes bs (data[pos := b], Suc pos) = Inr (data', Suc pos + length bs)"
      "length data' = length data"
      "take (Suc pos + length bs) data' = take (Suc pos) (data[pos := b]) @ bs"
    by auto
  have "take (Suc pos) (data[pos := b]) = take pos data @ [b]"
    using lt by (simp add: take_Suc_conv_app_nth)
  with d lt show ?case by simp
qed

lemma copy_to_take:
  "pos + length src \<le> length data \<Longrightarrow>
   \<exists>data'. copy_to src (data, pos) = Inr (data', pos + length src)
          \<and> length data' = length data
          \<and> take (pos + length src) data' = take pos data @ src"
  by (auto simp: Let_def min_def)

lemma wrote_start: "length data = n \<Longrightarrow> wrote (Inr (data, 0)) n []"
  by (simp add: wrote_def)

lemma wrote_store:
  assumes "wrote r n w" and "length w + length bs \<le> n"
  shows "wrote (then_write r (store_bytes bs)) n (w @ bs)"
proof -
  from assms(1) obtain data where r: "r = Inr (data, length w)"
    and n: "length data = n" and w: "take (length w) data = w"
    by (auto simp: wrote_def split: sum.splits)
  from assms(2) n have "length w + length bs \<le> length data" by simp
  from store_bytes_take [OF this] obtain data' where
    "store_bytes bs (data, length w) = Inr (data', length w + length bs)"
    "length data' = length data"
    "take (length w + length bs) data' = take (length w) data @ bs"
    by auto
  with r n w show ?thesis by (simp add: wrote_def then_write_def)
qed

lemma wrote_copy:
  assumes "wrote r n w" and "length w + length src \<le> n"
  shows "wrote (then_write r (copy_to src)) n (w @ src)"
proof -
  from assms(1) obtain data where r: "r = Inr (data, length w)"
    and n: "length data = n" and w: "take (length w) data = w"
    by (auto simp: wrote_def split: sum.splits)
  from assms(2) n have "length w + length src \<le> length data" by simp
  from copy_to_take [OF this] obtain data' where
    "copy_to src (data, length w) = Inr (data', length w + length src)"
    "length data' = length data"
    "take (length w + length src) data' = take (length w) data @ src"
    by auto
  with r n w show ?thesis by (simp add: wrote_def then_write_def)
qed

lemma then_write_assoc:
  "then_write r (\<lambda>dp. then_write (f dp) g) = then_write (then_write r f) g"
  by (cases r) (simp_all add: then_write_def)

lemma wrote_WriteNullString:
  assumes "wrote r n w" and "length w + length s + 1 \<le> n"
  shows "wrote (then_write r (WriteNullString s)) n ((w @ s) @ [0])"
proof -
  have "wrote (then_write r (copy_to s)) n (w @ s)"
    using assms by (intro wrote_copy) simp_all
  then have "wrote (then_write (then_write r (copy_to s)) (store_bytes [0])) n ((w @ s) @ [0])"
    using assms(2) by (intro wrote_store) simp_all
  moreover have "WriteNullString s = (\<lambda>dp. then_write (copy_to s dp) (store_bytes [0]))"
    by (rule ext) (simp add: WriteNullString_def)
  ultimately show ?thesis by (simp add: then_write_assoc)
qed

lemma wrote_copy_salt_head:
  assumes "wrote r n w" and "8 \<le> length s" and "length w + 8 \<le> n"
  shows "wrote (then_write r (copy_salt_head s)) n (w @ take 8 s)"
proof -
  have "copy_salt_head s = copy_to (take 8 s)"
    using assms(2) by (intro ext) (simp add: copy_salt_head_def slice_to_def)
  moreover have "wrote (then_write r (copy_to (take 8 s))) n (w @ take 8 s)"
    using assms by (intro wrote_copy) simp_all
  ultimately show ?thesis by simp
qed

lemma wrote_copy_salt_tail:
  assumes "wrote r n w" and "8 \<le> length s" and "length w + (length s - 8) \<le> n"
  shows "wrote (then_write r (copy_salt_tail s)) n (w @ drop 8 s)"
proof -
  have "copy_salt_tail s = copy_to (drop 8 s)"
    using assms(2) by (intro ext) (simp add: copy_salt_tail_def slice_from_def)
  moreover have "wrote (then_write r (copy_to (drop 8 s))) n (w @ drop 8 s)"
    using assms by (intro wrote_copy) simp_all
  ultimately show ?thesis by simp
qed

lemma wrote_full:
  assumes "wrote r n w" and "length w = n"
  shows "r = Inr (w, n)"
  using assms by (auto simp: wrote_def split: sum.splits)

lemma replicate_ten: "replicate 10 x = [x, x, x, x, x, x, x, x, x, x]"
  by (simp add: numeral_eq_Suc)

lemma writeInitialHandshake_packet:
  assumes "length (salt cc) = 20"
  shows "writeInitialHandshake K WritePacket cc =
     Inr (WritePacket (Conn cc)
            (handshake_head K cc [0, 0] @ [21] @ replicate 10 0 @ drop 8 (salt cc) @ [0]
             @ AUTH_CACHING_SHA2_PASSWORD @ [0]))"
proof -
  show ?thesis
    using assms
    by (simp add: writeInitialHandshake_def slice_to_def slice_from_def handshake_head_def Let_def
        replicate_ten)
qed

lemma writeInitialHandshakeV10_packet:
  assumes salt: "length (salt cc) = 20"
    and alloc: "\<And>n. length (StartEphemeralPacket n) = n"
  shows "writeInitialHandshakeV10 K StartEphemeralPacket WriteEphemeralPacket cc =
     Inr (WriteEphemeralPacket (Conn cc)
            (handshake_head K cc
               [ucast (initClientConnStatus K), ucast (drop_bit 8 (initClientConnStatus K))]
             @ [21] @ replicate 10 0 @ drop 8 (salt cc) @ [0]))"
proof -
  define n where "n = 1 + LenNullString (ServerVersion K) + 4 + 8 + 1 + 2 + 1 + 2 + 2 + 1 + 10 + 13"
  define cap where "cap = DefaultCapability K"
  define id where "id = ConnectionID cc"
  define r where "r =
    then_write (then_write (then_write (then_write (then_write (then_write (then_write
    (then_write (then_write (then_write (then_write (then_write (then_write
      (Inr (StartEphemeralPacket n, 0))
      (store_bytes [ProtocolVersion K]))
      (WriteNullString (ServerVersion K)))
      (store_bytes [ucast id, ucast (drop_bit 8 id), ucast (drop_bit 16 id), ucast (drop_bit 24 id)]))
      (copy_salt_head (salt cc)))
      (store_bytes [0]))
      (store_bytes [ucast (ucast cap :: 16 word), ucast (drop_bit 8 (ucast cap :: 16 word))]))
      (store_bytes [DefaultCollationID K]))
      (store_bytes [ucast (initClientConnStatus K), ucast (drop_bit 8 (initClientConnStatus K))]))
      (store_bytes [ucast (ucast (drop_bit 16 cap) :: 16 word),
                    ucast (drop_bit 8 (ucast (drop_bit 16 cap) :: 16 word))]))
      (store_bytes [21]))
      (store_bytes (replicate 10 0)))
      (copy_salt_tail (salt cc)))
      (store_bytes [0])"
  define w where "w =
      ((((((((((((([] @ [ProtocolVersion K]) @ ServerVersion K) @ [0])
      @ [ucast id, ucast (drop_bit 8 id), ucast (drop_bit 16 id), ucast (drop_bit 24 id)])
      @ take 8 (salt cc))
      @ [0])
      @ [ucast (ucast cap :: 16 word), ucast (drop_bit 8 (ucast cap :: 16 word))])
      @ [DefaultCollationID K])
      @ [ucast (initClientConnStatus K), ucast (drop_bit 8 (initClientConnStatus K))])
      @ [ucast (ucast (drop_bit 16 cap) :: 16 word),
         ucast (drop_bit 8 (ucast (drop_bit 16 cap) :: 16 word))])
      @ [21])
      @ replicate 10 0)
      @ drop 8 (salt cc))
      @ [0]"
  have "wrote r n w"
    unfolding r_def w_def
    by (intro wrote_store wrote_WriteNullString wrote_copy_salt_head wrote_copy_salt_tail
        wrote_start alloc)
       (simp_all add: n_def LenNullString_def salt)
  moreover have "length w = n"
    by (simp add: w_def n_def LenNullString_def salt)
  ultimately have r: "r = Inr (w, n)" by (rule wrote_full)
  have c1: "(ucast (ucast cap :: 16 word) :: byte) = ucast cap"
    by (rule bit_word_eqI) (auto simp: bit_simps)
  have c2: "(ucast (drop_bit 8 (ucast cap :: 16 word)) :: byte) = ucast (drop_bit 8 cap)"
    by (rule bit_word_eqI) (auto simp: bit_simps) 
  have c3: "(ucast (ucast (drop_bit 16 cap) :: 16 word) :: byte) = ucast (drop_bit 16 cap)"
    by (rule bit_word_eqI) (auto simp: bit_simps)
  have c4: "(ucast (drop_bit 8 (ucast (drop_bit 16 cap) :: 16 word)) :: byte) = ucast (drop_bit 24 cap)"
    by (rule bit_word_eqI) (auto simp: bit_simps) 
  have w: "w = handshake_head K cc
               [ucast (initClientConnStatus K), ucast (drop_bit 8 (initClientConnStatus K))]
             @ [21] @ replicate 10 0 @ drop 8 (salt cc) @ [0]"
    unfolding w_def c1 c2 c3 c4 unfolding id_def cap_def handshake_head_def by simp
  have "writeInitialHandshakeV10 K StartEphemeralPacket WriteEphemeralPacket cc =
      (case r of
           Inl e \<Rightarrow> Inl e
         | Inr (data, pos) \<Rightarrow>
             if pos \<noteq> length data
             then Inr (Conn cc, Some (ErrOther ''error building Handshake packet''))
             else Inr (WriteEphemeralPacket (Conn cc) data))"
    by (simp add: writeInitialHandshakeV10_def r_def n_def Let_def WriteByte_def WriteUint16_def
        WriteUint32_def WriteZeroes_def id_def cap_def)
  also have "\<dots> = Inr (WriteEphemeralPacket (Conn cc) w)"
    using \<open>length w = n\<close> by (simp add: r)
  finally show ?thesis by (simp add: w)
qed

text \<open>
  Claim C3, as stated, fails for one of the two functions it names:
  \<open>writeInitialHandshakeV10\<close> ends its packet with the zero byte after the salt and writes
  no auth plugin name. In the scenario of the specification the packet is the following,
  and \<open>caching_sha2_password\<close> with its zero byte is not its end.
\<close>

theorem handshakeV10_without_plugin_name:
  "writeInitialHandshakeV10 scenario_consts zeroed_packet collect_packet scenario_conn
     = Inr ([scenario_packet_V10], None)
   \<and> \<not> suffix (AUTH_CACHING_SHA2_PASSWORD @ [0]) scenario_packet_V10"
proof
  have s: "length (salt scenario_conn) = 20" by (simp add: scenario_conn_def)
  have z: "length (zeroed_packet n) = n" for n by (simp add: zeroed_packet_def)
  show "writeInitialHandshakeV10 scenario_consts zeroed_packet collect_packet scenario_conn
     = Inr ([scenario_packet_V10], None)"
    unfolding writeInitialHandshakeV10_packet [OF s z]
    by (simp add: scenario_consts_def scenario_conn_def collect_packet_def
          scenario_packet_V10_def handshake_head_def replicate_ten)
  show "\<not> suffix (AUTH_CACHING_SHA2_PASSWORD @ [0]) scenario_packet_V10"
    by (simp add: suffix_to_prefix AUTH_CACHING_SHA2_PASSWORD_def scenario_packet_V10_def)
qed

text \<open>
  Claim C3, amended. With a salt of 20 bytes, \<open>writeInitialHandshake\<close> writes one packet
  that contains, after the capability flags, the length byte 21, ten zero bytes, the
  remaining 12 bytes of the salt and a terminating zero byte, and that ends with the auth
  plugin name \<open>caching_sha2_password\<close> and a zero byte; \<open>writeInitialHandshakeV10\<close>
  writes the same fields up to the zero byte that terminates the salt and ends its packet
  there, without an auth plugin name.
\<close>

theorem initial_handshake_layout:
  "length (salt cc) = 20 \<longrightarrow>
     writeInitialHandshake K WritePacket cc =
       Inr (WritePacket (Conn cc)
              (handshake_head K cc [0, 0] @ [21] @ replicate 10 0 @ drop 8 (salt cc) @ [0]
               @ map of_char ''caching_sha2_password'' @ [0]))
     \<and> length (drop 8 (salt cc)) = 12
     \<and> ((\<forall>n. length (StartEphemeralPacket n) = n) \<longrightarrow>
          writeInitialHandshakeV10 K StartEphemeralPacket WriteEphemeralPacket cc =
            Inr (WriteEphemeralPacket (Conn cc)
                   (handshake_head K cc
                      [ucast (initClientConnStatus K),
                       ucast (drop_bit 8 (initClientConnStatus K))]
                    @ [21] @ replicate 10 0 @ drop 8 (salt cc) @ [0])))"
  using writeInitialHandshake_packet [of cc K WritePacket]
    writeInitialHandshakeV10_packet [of cc StartEphemeralPacket K WriteEphemeralPacket]
  by (simp add: AUTH_CACHING_SHA2_PASSWORD_def)

theorem initial_handshake_layout_witness:
  "length (salt scenario_conn) = 20
   \<and> (\<forall>n. length (zeroed_packet n) = n)
   \<and> writeInitialHandshake scenario_consts collect_packet scenario_conn
       = Inr ([scenario_packet], None)
   \<and> writeInitialHandshakeV10 scenario_consts zeroed_packet collect_packet scenario_conn
       = Inr ([scenario_packet_V10], None)"
proof -
  have s: "length (salt scenario_conn) = 20" by (simp add: scenario_conn_def)
  have z: "\<forall>n. length (zeroed_packet n) = n" by (simp add: zeroed_packet_def)
  show ?thesis
    using s z
      initial_handshake_layout [of scenario_conn scenario_consts collect_packet zeroed_packet
        collect_packet]
    by (simp add: scenario_consts_def scenario_conn_def collect_packet_def
          scenario_packet_def scenario_packet_V10_def handshake_head_def replicate_ten)
qed

section \<open>Verification: GenerateSql\<close>

text \<open>The loop appends one command for each advance and ends when the cursor is exhausted.\<close>

lemma gen_loop_scatter_run:
  "scatter_run E n w = Some (cmds, w') \<Longrightarrow>
   gen_loop E genResult w
     = Some (Inr (genResult\<lparr>Commands := Commands genResult @ cmds\<rparr>), w')
   \<and> length cmds = n"
proof (induction n arbitrary: w genResult cmds)
  case 0
  then show ?case
    by (subst gen_loop.simps) (auto split: prod.splits if_splits)
next
  case (Suc n)
  obtain advanced w1 where nx: "Next E w = (advanced, w1)" by (cases "Next E w")
  with Suc.prems have adv: "advanced" by (auto split: if_splits)
  obtain rs w2 where rs: "RestoreSql E w1 = (rs, w2)" by (cases "RestoreSql E w1")
  with Suc.prems nx adv obtain sql where sql: "rs = Inr sql"
    by (cases rs) auto
  let ?cmd = "\<lparr>DataSource = currentDb E w2, SqlCommand = sql,
                Vars = GetCurrentBindVariables E w2\<rparr>"
  from Suc.prems nx adv rs sql obtain cmds' where
    run: "scatter_run E n w2 = Some (cmds', w')" and cmds: "cmds = ?cmd # cmds'"
    by (auto split: option.splits)
  from Suc.IH [OF run, of "genResult\<lparr>Commands := Commands genResult @ [?cmd]\<rparr>"]
  have "gen_loop E (genResult\<lparr>Commands := Commands genResult @ [?cmd]\<rparr>) w2
      = Some (Inr (genResult\<lparr>Commands := Commands genResult @ ?cmd # cmds'\<rparr>), w')"
    and len: "length cmds' = n"
    by simp_all
  then show ?case
    using nx adv rs sql cmds by (subst gen_loop.simps) simp
qed

text \<open>Whatever the loop returns has the usage it started with.\<close>

lemma Usage_Commands_update: "Usage (g\<lparr>Commands := c\<rparr>) = Usage g"
  by simp

lemma Usage_make: "Usage \<lparr>Usage = u, Commands = c\<rparr> = u"
  by simp

lemma gen_loop_Usage_aux:
  fixes E :: "('w, 'bv, 'vals, 'vars) gen_env"
  assumes "gen_loop E genResult w = Some y"
  shows "\<forall>r w'. y = (Inr r, w') \<longrightarrow> Usage r = Usage genResult"
proof (rule gen_loop.raw_induct
    [where P = "\<lambda>E g w y. \<forall>r w'. y = (Inr r, w') \<longrightarrow> Usage r = Usage g", OF _ assms])
  fix loop :: "('w, 'bv, 'vals, 'vars) gen_env \<Rightarrow> 'vars SqlGenResult \<Rightarrow> 'w
     \<Rightarrow> ((error + 'vars SqlGenResult) \<times> 'w) option"
  fix E genResult w y
  assume IH: "\<And>E genResult w y. loop E genResult w = Some y \<Longrightarrow>
      \<forall>r w'. y = (Inr r, w') \<longrightarrow> Usage r = Usage genResult"
  assume body: "(case Next E w of
        (advanced, w1) \<Rightarrow>
          if advanced then
            (case RestoreSql E w1 of
               (Inl restErr, w2) \<Rightarrow> Some (Inl restErr, w2)
             | (Inr sql, w2) \<Rightarrow>
                 loop E
                   (genResult\<lparr>Commands := Commands genResult @
                      [\<lparr>DataSource = currentDb E w2, SqlCommand = sql,
                        Vars = GetCurrentBindVariables E w2\<rparr>]\<rparr>)
                   w2)
          else Some (Inr genResult, w1)) = Some y"
  obtain advanced w1 where nx: "Next E w = (advanced, w1)" by (cases "Next E w")
  obtain rs w2 where rs: "RestoreSql E w1 = (rs, w2)" by (cases "RestoreSql E w1")
  show "\<forall>r w'. y = (Inr r, w') \<longrightarrow> Usage r = Usage genResult"
  proof (cases advanced)
    case False
    have "y = (Inr genResult, w1)"
      using body by (simp add: nx False)
    then show ?thesis by simp
  next
    case True
    show ?thesis
    proof (cases rs)
      case (Inl restErr)
      have "y = (Inl restErr, w2)"
        using body by (simp add: nx rs True Inl)
      then show ?thesis by simp
    next
      case (Inr sql)
      have "loop E
           (genResult\<lparr>Commands := Commands genResult @
              [\<lparr>DataSource = currentDb E w2, SqlCommand = sql,
                Vars = GetCurrentBindVariables E w2\<rparr>]\<rparr>) w2 = Some y"
        using body by (simp only: nx rs True Inr prod.case if_True sum.case)
      from IH [OF this] show ?thesis by (simp only: Usage_Commands_update)
    qed
  qed
qed

lemma gen_loop_Usage:
  assumes "gen_loop E genResult w = Some (Inr r, w')"
  shows "Usage r = Usage genResult"
  by (rule gen_loop_Usage_aux [OF assms, rule_format, OF refl])

lemma gen_Shard:
  assumes "gen E w = Some (Inr r, w')"
  shows "Usage r = UsageShard"
proof -
  from assms have "gen_loop E \<lparr>Usage = UsageShard, Commands = []\<rparr> w = Some (Inr r, w')"
    by (simp only: gen_def)
  from gen_loop_Usage [OF this] show ?thesis by (simp only: Usage_make)
qed

lemma gen_scatter_run:
  "scatter_run E n w = Some (cmds, w') \<Longrightarrow>
   gen E w = Some (Inr \<lparr>Usage = UsageShard, Commands = cmds\<rparr>, w') \<and> length cmds = n"
  using gen_loop_scatter_run [of E n w cmds w' "\<lparr>Usage = UsageShard, Commands = []\<rparr>"]
  by (simp add: gen_def)

text \<open>
  Claim C4. Let restoring the sharding values from the bind variables succeed. If the
  value set is empty, \<open>GenerateSql\<close> returns the result with usage Raw and no scatter
  command; and a result with usage Raw is returned in this case only. Otherwise every
  result it returns has usage Shard, and when the runtime is built, the variables are set
  and the cursor advances \<open>n\<close> times before it is exhausted, each advance restoring its
  statement, \<open>GenerateSql\<close> returns: usage Shard with the \<open>n\<close> commands of the advances
  (current data source, restored SQL, current bind variables), in their order.
\<close>

theorem GenerateSql_Raw_or_Shard:
  assumes "RestoreShardingValues E bindVariables w = (Inr values, w1)"
  shows "(values = [] \<longrightarrow>
            GenerateSql E dds bindVariables w
              = Some (Inr \<lparr>Usage = UsageRaw, Commands = []\<rparr>, w1))
     \<and> ((\<exists>r w'. GenerateSql E dds bindVariables w = Some (Inr r, w') \<and> Usage r = UsageRaw)
          \<longleftrightarrow> values = [])
     \<and> (values \<noteq> [] \<longrightarrow>
          (\<forall>r w'. GenerateSql E dds bindVariables w = Some (Inr r, w') \<longrightarrow>
             Usage r = UsageShard))
     \<and> (values \<noteq> []
          \<and> NewRuntime E dds values bindVariables w1 = (None, w2)
          \<and> SetVars E bindVariables w2 = (None, w3)
          \<and> scatter_run E n w3 = Some (cmds, w4) \<longrightarrow>
          GenerateSql E dds bindVariables w
            = Some (Inr \<lparr>Usage = UsageShard, Commands = cmds\<rparr>, w4)
          \<and> length cmds = n)"
proof -
  have raw: "values = [] \<Longrightarrow>
      GenerateSql E dds bindVariables w = Some (Inr \<lparr>Usage = UsageRaw, Commands = []\<rparr>, w1)"
    using assms by (simp add: GenerateSql_def)
  have shard: "Usage r = UsageShard"
    if "values \<noteq> []" and "GenerateSql E dds bindVariables w = Some (Inr r, w')" for r w'
  proof -
    obtain e2 v2 where nr: "NewRuntime E dds values bindVariables w1 = (e2, v2)"
      by (cases "NewRuntime E dds values bindVariables w1")
    obtain e3 v3 where sv: "SetVars E bindVariables v2 = (e3, v3)"
      by (cases "SetVars E bindVariables v2")
    have G: "GenerateSql E dds bindVariables w =
        (case e2 of
           Some err \<Rightarrow> Some (Inl err, v2)
         | None \<Rightarrow>
             (case e3 of
                Some err \<Rightarrow> Some (Inl err, v3)
              | None \<Rightarrow>
                  (case gen E v3 of
                     None \<Rightarrow> None
                   | Some (Inl err, w4) \<Rightarrow> Some (Inl err, w4)
                   | Some (Inr r, w4) \<Rightarrow> Some (Inr r, w4))))"
      using that(1) assms nr sv by (cases e2; cases e3) (simp_all add: GenerateSql_def)
    have "gen E v3 = Some (Inr r, w')"
    proof (cases e2)
      case (Some err)
      with G that(2) show ?thesis by simp
    next
      case None
      note e2 = this
      show ?thesis
      proof (cases e3)
        case (Some err)
        with G e2 that(2) show ?thesis by simp
      next
        case None
        with G e2 that(2) show ?thesis
          by (cases "gen E v3") (auto split: sum.splits)
      qed
    qed
    then show ?thesis by (rule gen_Shard)
  qed
  have run: "GenerateSql E dds bindVariables w
            = Some (Inr \<lparr>Usage = UsageShard, Commands = cmds\<rparr>, w4) \<and> length cmds = n"
    if ne: "values \<noteq> []" and nr: "NewRuntime E dds values bindVariables w1 = (None, w2)"
      and sv: "SetVars E bindVariables w2 = (None, w3)"
      and sr: "scatter_run E n w3 = Some (cmds, w4)"
  proof -
    from gen_scatter_run [OF sr]
    have g: "gen E w3 = Some (Inr \<lparr>Usage = UsageShard, Commands = cmds\<rparr>, w4)"
      and len: "length cmds = n" by simp_all
    have "GenerateSql E dds bindVariables w
            = Some (Inr \<lparr>Usage = UsageShard, Commands = cmds\<rparr>, w4)"
      unfolding GenerateSql_def using ne by (simp add: assms nr sv g)
    with len show ?thesis by simp
  qed
  have iff: "(\<exists>r w'. GenerateSql E dds bindVariables w = Some (Inr r, w') \<and> Usage r = UsageRaw)
          \<longleftrightarrow> values = []"
  proof
    assume "\<exists>r w'. GenerateSql E dds bindVariables w = Some (Inr r, w') \<and> Usage r = UsageRaw"
    then obtain r w' where "GenerateSql E dds bindVariables w = Some (Inr r, w')"
      and "Usage r = UsageRaw" by blast
    with shard show "values = []" by (cases "values = []") auto
  next
    assume "values = []"
    from raw [OF this] show
      "\<exists>r w'. GenerateSql E dds bindVariables w = Some (Inr r, w') \<and> Usage r = UsageRaw"
      by simp
  qed
  show ?thesis
  proof (intro conjI impI allI)
    assume "values = []"
    then show "GenerateSql E dds bindVariables w
        = Some (Inr \<lparr>Usage = UsageRaw, Commands = []\<rparr>, w1)"
      by (rule raw)
  next
    show "(\<exists>r w'. GenerateSql E dds bindVariables w = Some (Inr r, w') \<and> Usage r = UsageRaw)
          \<longleftrightarrow> values = []"
      by (rule iff)
  next
    fix r w'
    assume "values \<noteq> []" and "GenerateSql E dds bindVariables w = Some (Inr r, w')"
    then show "Usage r = UsageShard" by (rule shard)
  next
    assume a: "values \<noteq> []
          \<and> NewRuntime E dds values bindVariables w1 = (None, w2)
          \<and> SetVars E bindVariables w2 = (None, w3)
          \<and> scatter_run E n w3 = Some (cmds, w4)"
    from a run show "GenerateSql E dds bindVariables w
            = Some (Inr \<lparr>Usage = UsageShard, Commands = cmds\<rparr>, w4)" by simp
    from a run show "length cmds = n" by simp
  qed
qed

theorem GenerateSql_Raw_or_Shard_witness:
  "RestoreShardingValues demo_env [] demo_world0 = (Inr [], demo_world0)
   \<and> GenerateSql demo_env ''ds0'' [] demo_world0
       = Some (Inr \<lparr>Usage = UsageRaw, Commands = []\<rparr>, demo_world0)
   \<and> RestoreShardingValues demo_env [''7''] demo_world0 = (Inr [''7''], demo_world0)
   \<and> NewRuntime demo_env ''ds0'' [''7''] [''7''] demo_world0 = (None, demo_world1)
   \<and> SetVars demo_env [''7''] demo_world1 = (None, demo_world1)
   \<and> scatter_run demo_env 2 demo_world1 = Some (demo_commands, demo_world2)
   \<and> GenerateSql demo_env ''ds0'' [''7''] demo_world0
       = Some (Inr \<lparr>Usage = UsageShard, Commands = demo_commands\<rparr>, demo_world2)"
proof -
  have r0: "RestoreShardingValues demo_env [] demo_world0 = (Inr [], demo_world0)"
    by (simp add: demo_env_def)
  have r1: "RestoreShardingValues demo_env [''7''] demo_world0 = (Inr [''7''], demo_world0)"
    by (simp add: demo_env_def)
  have nr: "NewRuntime demo_env ''ds0'' [''7''] [''7''] demo_world0 = (None, demo_world1)"
    by (simp add: demo_env_def demo_world1_def)
  have sv: "SetVars demo_env [''7''] demo_world1 = (None, demo_world1)"
    by (simp add: demo_env_def)
  have run: "scatter_run demo_env 2 demo_world1 = Some (demo_commands, demo_world2)"
    by (simp add: numeral_2_eq_2 demo_env_def demo_Next_def demo_commands_def
        demo_world1_def demo_world2_def)
  show ?thesis
    using r0 r1 nr sv run
      GenerateSql_Raw_or_Shard [OF r0, of "''ds0''"]
      GenerateSql_Raw_or_Shard [OF r1, of "''ds0''" demo_world1 demo_world1 2 demo_commands
        demo_world2]
    by simp
qed

section \<open>Verification: Session.Clone\<close>

lemma prefix_nth: "prefix h0 h \<Longrightarrow> a < length h0 \<Longrightarrow> h ! a = h0 ! a"
  by (auto simp: prefix_def nth_append)

lemma prefix_length: "prefix h0 h \<Longrightarrow> length h0 \<le> length h"
  by (auto simp: prefix_def)

lemma copied_mono: "copied h0 h p p' \<Longrightarrow> prefix h h2 \<Longrightarrow> copied h0 h2 p p'"
  by (auto simp: copied_def prefix_def nth_append split: option.splits)

lemma copied_list_mono:
  "list_all2 (copied h0 h) ps ps' \<Longrightarrow> prefix h h2 \<Longrightarrow> list_all2 (copied h0 h2) ps ps'"
  by (erule list_all2_mono) (rule copied_mono)

lemma copied_sessions_mono:
  "copied_sessions h0 h p p' \<Longrightarrow> prefix h h2 \<Longrightarrow> copied_sessions h0 h2 p p'"
  unfolding copied_sessions_def
  by (auto simp: prefix_nth dest: prefix_length copied_list_mono split: option.splits cell.splits)

lemma copied_bind_map_mono:
  "copied_bind_map h0 h p p' \<Longrightarrow> prefix h h2 \<Longrightarrow> copied_bind_map h0 h2 p p'"
  unfolding copied_bind_map_def
  by (auto simp: prefix_nth dest: prefix_length copied_list_mono split: option.splits cell.splits)

text \<open>Each helper leaves the heap it started with in place and returns a fresh copy.\<close>

lemma copy_Options_copied:
  assumes "points_to is_options h0 p" and "p \<noteq> None" and "prefix h0 h"
  shows "\<exists>p' h'. copy_Options p h = Inr (p', h') \<and> prefix h h' \<and> copied h0 h' p p'"
proof -
  from assms(1,2) obtain a x where p: "p = Some a" and a: "a < length h0"
    and c: "h0 ! a = ExecuteOptionsCell x"
    by (auto simp: points_to_def is_options_def split: option.splits cell.splits)
  from assms(3) a have ah: "a < length h" and hc: "h ! a = ExecuteOptionsCell x"
    and len: "length h0 \<le> length h"
    using prefix_length [OF assms(3)] prefix_nth [OF assms(3) a] c by simp_all
  have "copy_Options p h = Inr (Some (length h), h @ [ExecuteOptionsCell x])"
    by (simp add: copy_Options_def p ah hc alloc_def)
  moreover have "copied h0 (h @ [ExecuteOptionsCell x]) p (Some (length h))"
    by (simp add: copied_def p len c)
  ultimately show ?thesis by auto
qed

lemma CopyMap_copied:
  assumes "points_to is_string_map h0 p" and "prefix h0 h"
  shows "\<exists>p' h'. CopyMap p h = Inr (p', h') \<and> prefix h h' \<and> copied h0 h' p p'"
proof (cases p)
  case None
  then show ?thesis by (simp add: CopyMap_def copied_def)
next
  case (Some a)
  with assms(1) obtain x where a: "a < length h0" and c: "h0 ! a = StringMap x"
    by (auto simp: points_to_def is_string_map_def split: cell.splits)
  have ah: "a < length h" and hc: "h ! a = StringMap x" and len: "length h0 \<le> length h"
    using prefix_length [OF assms(2)] prefix_nth [OF assms(2) a] a c by simp_all
  have "CopyMap p h = Inr (Some (length h), h @ [StringMap x])"
    by (simp add: CopyMap_def Some ah hc alloc_def)
  moreover have "copied h0 (h @ [StringMap x]) p (Some (length h))"
    by (simp add: copied_def Some len c)
  ultimately show ?thesis by auto
qed

lemma CopyArray_copied:
  assumes "points_to is_string_array h0 p" and "prefix h0 h"
  shows "\<exists>p' h'. CopyArray p h = Inr (p', h') \<and> prefix h h' \<and> copied h0 h' p p'"
proof (cases p)
  case None
  then show ?thesis by (simp add: CopyArray_def copied_def)
next
  case (Some a)
  with assms(1) obtain x where a: "a < length h0" and c: "h0 ! a = StringArray x"
    by (auto simp: points_to_def is_string_array_def split: cell.splits)
  have ah: "a < length h" and hc: "h ! a = StringArray x" and len: "length h0 \<le> length h"
    using prefix_length [OF assms(2)] prefix_nth [OF assms(2) a] a c by simp_all
  have "CopyArray p h = Inr (Some (length h), h @ [StringArray x])"
    by (simp add: CopyArray_def Some ah hc alloc_def)
  moreover have "copied h0 (h @ [StringArray x]) p (Some (length h))"
    by (simp add: copied_def Some len c)
  ultimately show ?thesis by auto
qed

lemma DbSession_Clone_copied:
  assumes "points_to is_db_session h0 p" and "nil_tolerant \<or> p \<noteq> None" and "prefix h0 h"
  shows "\<exists>p' h'. DbSession_Clone nil_tolerant p h = Inr (p', h') \<and> prefix h h'
           \<and> copied h0 h' p p'"
proof (cases p)
  case None
  with assms(2) show ?thesis by (simp add: DbSession_Clone_def copied_def)
next
  case (Some a)
  with assms(1) obtain x where a: "a < length h0" and c: "h0 ! a = DbSessionCell x"
    by (auto simp: points_to_def is_db_session_def split: cell.splits)
  have ah: "a < length h" and hc: "h ! a = DbSessionCell x" and len: "length h0 \<le> length h"
    using prefix_length [OF assms(3)] prefix_nth [OF assms(3) a] a c by simp_all
  have "DbSession_Clone nil_tolerant p h = Inr (Some (length h), h @ [DbSessionCell x])"
    by (simp add: DbSession_Clone_def Some ah hc alloc_def)
  moreover have "copied h0 (h @ [DbSessionCell x]) p (Some (length h))"
    by (simp add: copied_def Some len c)
  ultimately show ?thesis by auto
qed

lemma cloneDbSession_copied:
  assumes "points_to is_db_session h0 p" and "prefix h0 h"
  shows "\<exists>p' h'. cloneDbSession nil_tolerant p h = Inr (p', h') \<and> prefix h h'
           \<and> copied h0 h' p p'"
proof (cases p)
  case None
  then show ?thesis by (simp add: cloneDbSession_def copied_def)
next
  case (Some a)
  then have "cloneDbSession nil_tolerant p h = DbSession_Clone nil_tolerant p h"
    by (simp add: cloneDbSession_def)
  with DbSession_Clone_copied [OF assms(1) _ assms(2), of nil_tolerant] Some
  show ?thesis by simp
qed

lemma BindVariable_Clone_copied:
  assumes "points_to is_bind_variable h0 p" and "p \<noteq> None" and "prefix h0 h"
  shows "\<exists>p' h'. BindVariable_Clone p h = Inr (p', h') \<and> prefix h h' \<and> copied h0 h' p p'"
proof -
  from assms(1,2) obtain a x where p: "p = Some a" and a: "a < length h0"
    and c: "h0 ! a = BindVariableCell x"
    by (auto simp: points_to_def is_bind_variable_def split: option.splits cell.splits)
  have ah: "a < length h" and hc: "h ! a = BindVariableCell x" and len: "length h0 \<le> length h"
    using prefix_length [OF assms(3)] prefix_nth [OF assms(3) a] a c by simp_all
  have "BindVariable_Clone p h = Inr (Some (length h), h @ [BindVariableCell x])"
    by (simp add: BindVariable_Clone_def p ah hc alloc_def)
  moreover have "copied h0 (h @ [BindVariableCell x]) p (Some (length h))"
    by (simp add: copied_def p len c)
  ultimately show ?thesis by auto
qed

text \<open>The loop over a slice of sessions.\<close>

lemma cloneDbSessions_loop_copied:
  assumes "list_all (\<lambda>q. (nil_tolerant \<or> q \<noteq> None) \<and> points_to is_db_session h0 q) elems"
    and "prefix h0 h"
  shows "\<exists>cs h'. cloneDbSessions_loop nil_tolerant elems sessions h = Inr (sessions @ cs, h')
           \<and> prefix h h' \<and> list_all2 (copied h0 h') elems cs"
  using assms
proof (induction elems arbitrary: sessions h)
  case Nil
  then show ?case by simp
next
  case (Cons s elems)
  from Cons.prems have s: "points_to is_db_session h0 s" "nil_tolerant \<or> s \<noteq> None"
    and rest: "list_all (\<lambda>q. (nil_tolerant \<or> q \<noteq> None) \<and> points_to is_db_session h0 q) elems"
    by simp_all
  from DbSession_Clone_copied [OF s Cons.prems(2)]
  obtain c h1 where c: "DbSession_Clone nil_tolerant s h = Inr (c, h1)"
    and p1: "prefix h h1" and cp: "copied h0 h1 s c"
    by blast
  from Cons.prems(2) p1 have p01: "prefix h0 h1" by (rule prefix_order.trans)
  from Cons.IH [OF rest p01, of "sessions @ [c]"]
  obtain cs h2 where l: "cloneDbSessions_loop nil_tolerant elems (sessions @ [c]) h1
        = Inr ((sessions @ [c]) @ cs, h2)"
    and p2: "prefix h1 h2" and cps: "list_all2 (copied h0 h2) elems cs"
    by blast
  have "cloneDbSessions_loop nil_tolerant (s # elems) sessions h = Inr (sessions @ (c # cs), h2)"
    by (simp add: c l)
  moreover have "prefix h h2" using p1 p2 by (rule prefix_order.trans)
  moreover have "list_all2 (copied h0 h2) (s # elems) (c # cs)"
    using copied_mono [OF cp p2] cps by simp
  ultimately show ?case by blast
qed

lemma cloneDbSessions_copied:
  assumes "points_to (is_sessions nil_tolerant h0) h0 p" and "prefix h0 h"
  shows "\<exists>p' h'. cloneDbSessions nil_tolerant p h = Inr (p', h') \<and> prefix h h'
           \<and> copied_sessions h0 h' p p'"
proof (cases p)
  case None
  then show ?thesis by (simp add: cloneDbSessions_def copied_sessions_def)
next
  case (Some a)
  with assms(1) obtain elems where a: "a < length h0" and c: "h0 ! a = DbSessionArray elems"
    and el: "list_all (\<lambda>q. (nil_tolerant \<or> q \<noteq> None) \<and> points_to is_db_session h0 q) elems"
    by (auto simp: points_to_def is_sessions_def split: cell.splits)
  have ah: "a < length h" and hc: "h ! a = DbSessionArray elems"
    using prefix_length [OF assms(2)] prefix_nth [OF assms(2) a] a c by simp_all
  from cloneDbSessions_loop_copied [OF el assms(2), of "[]"]
  obtain cs h1 where l: "cloneDbSessions_loop nil_tolerant elems [] h = Inr (cs, h1)"
    and p1: "prefix h h1" and cps: "list_all2 (copied h0 h1) elems cs"
    by auto
  have p2: "prefix h1 (h1 @ [DbSessionArray cs])" by simp
  have len: "length h0 \<le> length h1"
    using prefix_length [OF assms(2)] prefix_length [OF p1] by simp
  have "cloneDbSessions nil_tolerant p h = Inr (Some (length h1), h1 @ [DbSessionArray cs])"
    by (simp add: cloneDbSessions_def Some ah hc l alloc_def)
  moreover have "prefix h (h1 @ [DbSessionArray cs])"
    using p1 p2 by (rule prefix_order.trans)
  moreover have "copied_sessions h0 (h1 @ [DbSessionArray cs]) p (Some (length h1))"
    using copied_list_mono [OF cps p2] by (simp add: copied_sessions_def Some len c)
  ultimately show ?thesis by blast
qed

text \<open>The loop over the map of user-defined variables.\<close>

lemma map_assign_new: "name \<notin> fst ` set dest \<Longrightarrow> map_assign name v dest = dest @ [(name, v)]"
  by (simp add: map_assign_def)

lemma cloneUserDefinedVariables_loop_copied:
  assumes "distinct (map fst entries)"
    and "fst ` set dest \<inter> fst ` set entries = {}"
    and "list_all (points_to is_bind_variable h0) (map snd entries)"
    and "prefix h0 h"
  shows "\<exists>cs h'. cloneUserDefinedVariables_loop entries dest h
             = Inr (dest @ zip (map fst entries) cs, h')
           \<and> length cs = length entries \<and> prefix h h'
           \<and> list_all2 (copied h0 h') (map snd entries) cs"
  using assms
proof (induction entries arbitrary: dest h)
  case Nil
  then show ?case by simp
next
  case (Cons e entries)
  obtain name variable where e: "e = (name, variable)" by (cases e)
  from Cons.prems(1) e have d: "distinct (map fst entries)" and nin: "name \<notin> fst ` set entries"
    by auto
  from Cons.prems(2) e have nd: "name \<notin> fst ` set dest"
    and dj: "fst ` set dest \<inter> fst ` set entries = {}"
    by auto
  from Cons.prems(3) e have v: "points_to is_bind_variable h0 variable"
    and vs: "list_all (points_to is_bind_variable h0) (map snd entries)"
    by simp_all
  have "\<exists>c h1. (if variable = None then Inr (None, h) else BindVariable_Clone variable h)
            = Inr (c, h1) \<and> prefix h h1 \<and> copied h0 h1 variable c"
  proof (cases variable)
    case None
    have "copied h0 h None None" by (simp add: copied_def)
    with None show ?thesis by auto
  next
    case (Some a)
    then have nn: "variable \<noteq> None" by simp
    from BindVariable_Clone_copied [OF v nn Cons.prems(4)]
    obtain c h1 where "BindVariable_Clone variable h = Inr (c, h1)"
      and "prefix h h1" and "copied h0 h1 variable c"
      by blast
    then show ?thesis
      unfolding Some by (intro exI [of _ c] exI [of _ h1]) simp
  qed
  then obtain c h1 where
    c: "(if variable = None then Inr (None, h) else BindVariable_Clone variable h) = Inr (c, h1)"
    and p1: "prefix h h1" and cp: "copied h0 h1 variable c"
    by blast
  have step: "cloneUserDefinedVariables_loop (e # entries) dest h
      = cloneUserDefinedVariables_loop entries (dest @ [(name, c)]) h1"
    using c by (auto simp: e map_assign_new [OF nd] split: if_splits)
  have dj': "fst ` set (dest @ [(name, c)]) \<inter> fst ` set entries = {}"
    using dj nin by auto
  from Cons.prems(4) p1 have p01: "prefix h0 h1" by (rule prefix_order.trans)
  from Cons.IH [OF d dj' vs p01]
  obtain cs h2 where l: "cloneUserDefinedVariables_loop entries (dest @ [(name, c)]) h1
        = Inr ((dest @ [(name, c)]) @ zip (map fst entries) cs, h2)"
    and len: "length cs = length entries" and p2: "prefix h1 h2"
    and cps: "list_all2 (copied h0 h2) (map snd entries) cs"
    by blast
  have "cloneUserDefinedVariables_loop (e # entries) dest h
      = Inr (dest @ zip (map fst (e # entries)) (c # cs), h2)"
    unfolding step l by (simp add: e)
  moreover have "length (c # cs) = length (e # entries)" using len by simp
  moreover have "prefix h h2" using p1 p2 by (rule prefix_order.trans)
  moreover have "list_all2 (copied h0 h2) (map snd (e # entries)) (c # cs)"
    using copied_mono [OF cp p2] cps by (simp add: e)
  ultimately show ?case by blast
qed

lemma cloneUserDefinedVariables_copied:
  assumes "points_to (is_bind_map h0) h0 (UserDefinedVariables s)" and "prefix h0 h"
  shows "\<exists>p' h'. cloneUserDefinedVariables s h = Inr (p', h') \<and> prefix h h'
           \<and> copied_bind_map h0 h' (UserDefinedVariables s) p'"
proof (cases "UserDefinedVariables s")
  case None
  then show ?thesis by (simp add: cloneUserDefinedVariables_def copied_bind_map_def)
next
  case (Some a)
  with assms(1) obtain entries where a: "a < length h0"
    and c: "h0 ! a = BindVariableMap entries"
    and d: "distinct (map fst entries)"
    and el: "list_all (points_to is_bind_variable h0) (map snd entries)"
    by (auto simp: points_to_def is_bind_map_def split: cell.splits)
  have ah: "a < length h" and hc: "h ! a = BindVariableMap entries"
    using prefix_length [OF assms(2)] prefix_nth [OF assms(2) a] a c by simp_all
  from cloneUserDefinedVariables_loop_copied [OF d _ el assms(2), of "[]"]
  obtain cs h1 where l: "cloneUserDefinedVariables_loop entries [] h
        = Inr (zip (map fst entries) cs, h1)"
    and len: "length cs = length entries"
    and p1: "prefix h h1" and cps: "list_all2 (copied h0 h1) (map snd entries) cs"
    by auto
  let ?dest = "zip (map fst entries) cs"
  have p2: "prefix h1 (h1 @ [BindVariableMap ?dest])" by simp
  have len0: "length h0 \<le> length h1"
    using prefix_length [OF assms(2)] prefix_length [OF p1] by simp
  have "cloneUserDefinedVariables s h = Inr (Some (length h1), h1 @ [BindVariableMap ?dest])"
    by (simp add: cloneUserDefinedVariables_def Some ah hc l alloc_def)
  moreover have "prefix h (h1 @ [BindVariableMap ?dest])"
    using p1 p2 by (rule prefix_order.trans)
  moreover have "copied_bind_map h0 (h1 @ [BindVariableMap ?dest]) (UserDefinedVariables s)
      (Some (length h1))"
    using copied_list_mono [OF cps p2] len
    by (simp add: copied_bind_map_def Some len0 c)
  ultimately show ?thesis by blast
qed

lemma Clone_nil_Options:
  "Options s = None \<Longrightarrow> Clone nil_tolerant (Some s) h = Inl PanicNilDeref"
  by (simp add: Clone_def and_then_def copy_Options_def)

lemma Clone_copied:
  assumes opt: "Options s \<noteq> None" and valid: "valid_session nil_tolerant h s"
  shows "\<exists>s' h'. Clone nil_tolerant (Some s) h = Inr (s', h') \<and> prefix h h'
           \<and> cloned_session h h' s s'"
proof -
  have p0: "prefix h h" by simp
  from valid have v:
    "points_to is_options h (Options s)"
    "points_to (is_sessions nil_tolerant h) h (ShardSessions s)"
    "points_to is_string_map h (SystemVariables s)"
    "points_to is_string_array h (Warnings s)"
    "points_to (is_sessions nil_tolerant h) h (PreSessions s)"
    "points_to (is_sessions nil_tolerant h) h (PostSessions s)"
    "points_to (is_bind_map h) h (UserDefinedVariables s)"
    "points_to is_string_array h (SavePoints s)"
    "points_to is_db_session h (LockSession s)"
    by (simp_all add: valid_session_def)
  from copy_Options_copied [OF v(1) opt p0]
  obtain ops h1 where e1: "copy_Options (Options s) h = Inr (ops, h1)"
    and p1: "prefix h h1" and c1: "copied h h1 (Options s) ops" by blast
  from cloneDbSessions_copied [OF v(2) p1]
  obtain shard h2 where e2: "cloneDbSessions nil_tolerant (ShardSessions s) h1 = Inr (shard, h2)"
    and q2: "prefix h1 h2" and c2: "copied_sessions h h2 (ShardSessions s) shard" by blast
  have p2: "prefix h h2" using p1 q2 by (rule prefix_order.trans)
  from CopyMap_copied [OF v(3) p2]
  obtain sysv h3 where e3: "CopyMap (SystemVariables s) h2 = Inr (sysv, h3)"
    and q3: "prefix h2 h3" and c3: "copied h h3 (SystemVariables s) sysv" by blast
  have p3: "prefix h h3" using p2 q3 by (rule prefix_order.trans)
  from CopyArray_copied [OF v(4) p3]
  obtain warn h4 where e4: "CopyArray (Warnings s) h3 = Inr (warn, h4)"
    and q4: "prefix h3 h4" and c4: "copied h h4 (Warnings s) warn" by blast
  have p4: "prefix h h4" using p3 q4 by (rule prefix_order.trans)
  from cloneDbSessions_copied [OF v(5) p4]
  obtain pre h5 where e5: "cloneDbSessions nil_tolerant (PreSessions s) h4 = Inr (pre, h5)"
    and q5: "prefix h4 h5" and c5: "copied_sessions h h5 (PreSessions s) pre" by blast
  have p5: "prefix h h5" using p4 q5 by (rule prefix_order.trans)
  from cloneDbSessions_copied [OF v(6) p5]
  obtain post h6 where e6: "cloneDbSessions nil_tolerant (PostSessions s) h5 = Inr (post, h6)"
    and q6: "prefix h5 h6" and c6: "copied_sessions h h6 (PostSessions s) post" by blast
  have p6: "prefix h h6" using p5 q6 by (rule prefix_order.trans)
  from cloneUserDefinedVariables_copied [OF v(7) p6]
  obtain udv h7 where e7: "cloneUserDefinedVariables s h6 = Inr (udv, h7)"
    and q7: "prefix h6 h7" and c7: "copied_bind_map h h7 (UserDefinedVariables s) udv" by blast
  have p7: "prefix h h7" using p6 q7 by (rule prefix_order.trans)
  from CopyArray_copied [OF v(8) p7]
  obtain save h8 where e8: "CopyArray (SavePoints s) h7 = Inr (save, h8)"
    and q8: "prefix h7 h8" and c8: "copied h h8 (SavePoints s) save" by blast
  have p8: "prefix h h8" using p7 q8 by (rule prefix_order.trans)
  from cloneDbSession_copied [OF v(9) p8]
  obtain lock h9 where e9: "cloneDbSession nil_tolerant (LockSession s) h8 = Inr (lock, h9)"
    and q9: "prefix h8 h9" and c9: "copied h h9 (LockSession s) lock" by blast
  have p9: "prefix h h9" using p8 q9 by (rule prefix_order.trans)
  have r8: "prefix h8 h9" by (rule q9)
  have r7: "prefix h7 h9" using q8 r8 by (rule prefix_order.trans)
  have r6: "prefix h6 h9" using q7 r7 by (rule prefix_order.trans)
  have r5: "prefix h5 h9" using q6 r6 by (rule prefix_order.trans)
  have r4: "prefix h4 h9" using q5 r5 by (rule prefix_order.trans)
  have r3: "prefix h3 h9" using q4 r4 by (rule prefix_order.trans)
  have r2: "prefix h2 h9" using q3 r3 by (rule prefix_order.trans)
  have r1: "prefix h1 h9" using q2 r2 by (rule prefix_order.trans)
  let ?s' = "\<lparr>InTransaction = InTransaction s,
                  Autocommit = Autocommit s,
                  ShardSessions = shard,
                  Options = ops,
                  TargetString = TargetString s,
                  SystemVariables = sysv,
                  TransactionMode = TransactionMode s,
                  Warnings = warn,
                  PreSessions = pre,
                  PostSessions = post,
                  LastInsertId = LastInsertId s,
                  FoundRows = FoundRows s,
                  UserDefinedVariables = udv,
                  RowCount = RowCount s,
                  SavePoints = save,
                  InReservedConn = InReservedConn s,
                  LockSession = lock,
                  LastLockHeartbeat = LastLockHeartbeat s,
                  DDLStrategy = DDLStrategy s,
                  SessionUUID = SessionUUID s,
                  EnableSystemSettings = EnableSystemSettings s\<rparr>"
  have "Clone nil_tolerant (Some s) h = Inr (?s', h9)"
    by (simp add: Clone_def and_then_def e1 e2 e3 e4 e5 e6 e7 e8 e9)
  moreover have "cloned_session h h9 s ?s'"
    using copied_mono [OF c1 r1] copied_sessions_mono [OF c2 r2] copied_mono [OF c3 r3]
      copied_mono [OF c4 r4] copied_sessions_mono [OF c5 r5] copied_sessions_mono [OF c6 r6]
      copied_bind_map_mono [OF c7 r7] copied_mono [OF c8 r8] c9
    by (simp add: cloned_session_def)
  ultimately show ?thesis using p9 by blast
qed

text \<open>
  The deep copy, where the code makes it. \<open>Clone\<close> dereferences \<open>Options\<close> without a
  test: on a session whose \<open>Options\<close> pointer is nil it panics. When \<open>Options\<close> is not
  nil, every pointer of the session leads to an object of its type and the session slices
  hold no nil pointer (or \<open>DbSession.Clone\<close> tolerates one), \<open>Clone\<close> returns a
  session that is equal to the original in every plain field and in which \<open>Options\<close> and
  every map and slice (\<open>ShardSessions\<close>, \<open>SystemVariables\<close>, \<open>Warnings\<close>,
  \<open>PreSessions\<close>, \<open>PostSessions\<close>, \<open>UserDefinedVariables\<close>, \<open>SavePoints\<close>) is a fresh
  copy with equal contents, at an address the heap of the original does not have; that heap
  is left as it was.
\<close>

theorem Session_Clone_deep_copy:
  "(Options s = None \<longrightarrow> Clone nil_tolerant (Some s) h = Inl PanicNilDeref)
   \<and> (Options s \<noteq> None \<and> valid_session nil_tolerant h s \<longrightarrow>
        (\<exists>s' h'. Clone nil_tolerant (Some s) h = Inr (s', h') \<and> prefix h h'
                 \<and> cloned_session h h' s s'))"
  using Clone_nil_Options [of s nil_tolerant h] Clone_copied [of s nil_tolerant h]
  by blast

theorem Session_Clone_deep_copy_witness:
  "Options demo_session \<noteq> None
   \<and> valid_session False demo_heap demo_session
   \<and> Clone False (Some demo_session) demo_heap = Inr (demo_clone, demo_heap @ demo_copies)
   \<and> cloned_session demo_heap (demo_heap @ demo_copies) demo_session demo_clone
   \<and> Options (demo_session\<lparr>Options := None\<rparr>) = None
   \<and> Clone False (Some (demo_session\<lparr>Options := None\<rparr>)) demo_heap = Inl PanicNilDeref"
proof -
  have o: "Options demo_session \<noteq> None" by (simp add: demo_session_def)
  have v: "valid_session False demo_heap demo_session"
    by (simp add: valid_session_def demo_session_def demo_heap_def points_to_def
        is_options_def is_sessions_def is_string_map_def is_string_array_def is_bind_map_def
        is_db_session_def is_bind_variable_def)
  have e: "Clone False (Some demo_session) demo_heap = Inr (demo_clone, demo_heap @ demo_copies)"
    by (simp add: Clone_def and_then_def copy_Options_def cloneDbSessions_def CopyMap_def
        CopyArray_def cloneUserDefinedVariables_def cloneDbSession_def DbSession_Clone_def
        BindVariable_Clone_def map_assign_def alloc_def demo_session_def demo_heap_def
        demo_copies_def demo_clone_def)
  have n: "Options (demo_session\<lparr>Options := None\<rparr>) = None" by simp
  from Session_Clone_deep_copy [of demo_session False demo_heap] o v e
  have c: "cloned_session demo_heap (demo_heap @ demo_copies) demo_session demo_clone"
    by auto
  from Session_Clone_deep_copy [of "demo_session\<lparr>Options := None\<rparr>" False demo_heap] n
  have p: "Clone False (Some (demo_session\<lparr>Options := None\<rparr>)) demo_heap = Inl PanicNilDeref"
    by blast
  from o v e c n p show ?thesis by blast
qed


end
